theory Spec2Isabelle
  imports Main
begin

section \<open>JavaScript values, arrays and loops\<close>

text \<open>
  The repository holds two variants of the same game: a React component with hooks
  (the file with \<open>checkCollision\<close>, \<open>rotateMatrix\<close>, \<open>processBoardUpdate\<close>; called the
  hook variant below) and \<open>script.js\<close> (with \<open>canMove\<close>, \<open>rotatePiece\<close>, \<open>placePiece\<close>,
  \<open>clearLines\<close>, \<open>moveDown\<close>; called the script variant).  Both are embedded.

  Array cells are JavaScript values.  A read past the end of an array yields
  \<open>undefined\<close>; a property read on \<open>undefined\<close> throws a \<open>TypeError\<close>; a write past the
  end of an array extends it with holes.  Coordinates, line counts and levels are
  integers (they start as integers and only change by integer steps); they stand for
  the code's numbers as long as these are safe integers, of magnitude below \<open>2\<^sup>5\<^sup>3\<close>.
\<close>

datatype jsval = Undefined | Null | Num int | Str string

datatype error = TypeError

text \<open>
  The scores are numbers, that is IEEE doubles.  They start at 0 and change only by
  sums and products of integers, so a score is an integer-valued double, an infinity or
  \<open>NaN\<close>; \<open>Number k\<close> is the double of value \<open>k\<close> (the two zeros are \<open>===\<close> and are one
  value here).
\<close>

datatype jsnum = Number int | PosInfinity | NegInfinity | NaN

text \<open>The number of binary digits of a positive integer.\<close>

function bitLength :: "int \<Rightarrow> nat" where
  "bitLength a = (if a \<le> 0 then 0 else Suc (bitLength (a div 2)))"
  by pat_completeness auto
termination
  by (relation "measure nat") auto

declare bitLength.simps [simp del]

text \<open>
  The result of an operation is its exact value rounded to 53 significant
  binary digits, ties to the even significand, and an infinity from \<open>2\<^sup>1\<^sup>0\<^sup>2\<^sup>4\<close> on.
  \<open>roundToEven\<close> rounds a magnitude, \<open>toNumber\<close> a signed exact value.
\<close>

definition roundToEven :: "int \<Rightarrow> int" where
  "roundToEven a =
     (let u = 2 ^ (bitLength a - 53); q = a div u; r = a mod u in
      if 2 * r < u then q * u
      else if 2 * r > u then (q + 1) * u
      else if even q then q * u
      else (q + 1) * u)"

definition toNumber :: "int \<Rightarrow> jsnum" where
  "toNumber k =
     (let a = roundToEven \<bar>k\<bar> in
      if a \<ge> 2 ^ 1024 then (if k < 0 then NegInfinity else PosInfinity)
      else Number (if k < 0 then - a else a))"

fun jsPlus :: "jsnum \<Rightarrow> jsnum \<Rightarrow> jsnum" where
  "jsPlus (Number a) (Number b) = toNumber (a + b)"
| "jsPlus NaN _ = NaN"
| "jsPlus _ NaN = NaN"
| "jsPlus PosInfinity NegInfinity = NaN"
| "jsPlus NegInfinity PosInfinity = NaN"
| "jsPlus PosInfinity _ = PosInfinity"
| "jsPlus _ PosInfinity = PosInfinity"
| "jsPlus NegInfinity _ = NegInfinity"
| "jsPlus _ NegInfinity = NegInfinity"

text \<open>\<open>Number.isSafeInteger\<close>: the integers on which the arithmetic of numbers is exact.\<close>

definition safeInteger :: "int \<Rightarrow> bool" where
  "safeInteger k = (\<bar>k\<bar> \<le> 2 ^ 53 - 1)"

text \<open>\<open>xs[i]\<close> on an array of arrays: \<open>None\<close> stands for \<open>undefined\<close>.\<close>

definition jsIndex :: "'a list \<Rightarrow> int \<Rightarrow> 'a option" where
  "jsIndex xs i = (if 0 \<le> i \<and> i < int (length xs) then Some (xs ! nat i) else None)"

text \<open>\<open>row[i]\<close> on an array of values.\<close>

definition cellAt :: "jsval list \<Rightarrow> int \<Rightarrow> jsval" where
  "cellAt row i = (case jsIndex row i of None \<Rightarrow> Undefined | Some v \<Rightarrow> v)"

text \<open>\<open>row[i] = v\<close>: in range it overwrites, past the end it extends the array with
  holes; a negative index sets a property and leaves the elements alone.\<close>

definition jsSet :: "jsval list \<Rightarrow> int \<Rightarrow> jsval \<Rightarrow> jsval list" where
  "jsSet row i v =
     (if i < 0 then row
      else if i < int (length row) then row[nat i := v]
      else row @ replicate (nat i - length row) Undefined @ [v])"

text \<open>\<open>arr[r][c] = v\<close> on an array of rows: a missing row throws.\<close>

definition writeCell :: "jsval list list \<Rightarrow> int \<Rightarrow> int \<Rightarrow> jsval \<Rightarrow> error + jsval list list" where
  "writeCell arr r c v =
     (case jsIndex arr r of
        None \<Rightarrow> Inl TypeError
      | Some row \<Rightarrow> Inr (arr[nat r := jsSet row c v]))"

text \<open>Truthiness, as \<open>if (v)\<close> and \<open>!v\<close> read a value.\<close>

fun truthy :: "jsval \<Rightarrow> bool" where
  "truthy Undefined = False"
| "truthy Null = False"
| "truthy (Num n) = (n \<noteq> 0)"
| "truthy (Str s) = (s \<noteq> [])"

text \<open>
  \<open>for (let i = start; i < xs.length; i++) { if (body(i, xs[i])) return true; }\<close>
  followed by \<open>return false\<close>: the scan stops at the first hit, or at the first
  exception.
\<close>

fun scanFrom :: "int \<Rightarrow> 'a list \<Rightarrow> (int \<Rightarrow> 'a \<Rightarrow> error + bool) \<Rightarrow> error + bool" where
  "scanFrom i [] body = Inr False"
| "scanFrom i (a # as) body =
     (case body i a of
        Inl e \<Rightarrow> Inl e
      | Inr hit \<Rightarrow> if hit then Inr True else scanFrom (i + 1) as body)"

text \<open>
  \<open>xs.forEach((a, i) => body)\<close> and the plain counting \<open>for\<close> loop over an array,
  threading the mutated data through; an exception ends the loop.
\<close>

fun forEachFrom :: "int \<Rightarrow> 'a list \<Rightarrow> (int \<Rightarrow> 'a \<Rightarrow> 's \<Rightarrow> error + 's) \<Rightarrow> 's \<Rightarrow> error + 's" where
  "forEachFrom i [] body s = Inr s"
| "forEachFrom i (a # as) body s =
     (case body i a s of
        Inl e \<Rightarrow> Inl e
      | Inr s' \<Rightarrow> forEachFrom (i + 1) as body s')"

text \<open>\<open>f\<close> applied \<open>n\<close> times in succession; an exception ends the run.\<close>

fun repeatE :: "nat \<Rightarrow> ('a \<Rightarrow> error + 'a) \<Rightarrow> 'a \<Rightarrow> error + 'a" where
  "repeatE 0 f x = Inr x"
| "repeatE (Suc n) f x = (case f x of Inl e \<Rightarrow> Inl e | Inr y \<Rightarrow> repeatE n f y)"

section \<open>What both variants declare\<close>

definition BOARD_WIDTH :: int where
  "BOARD_WIDTH = 10"

definition BOARD_HEIGHT :: int where
  "BOARD_HEIGHT = 20"

type_synonym Board = "jsval list list"

text \<open>A position \<open>{x, y}\<close> is the pair \<open>(x, y)\<close>.\<close>

type_synonym Pos = "int \<times> int"

text \<open>The board of the data model: \<open>BOARD_HEIGHT\<close> rows of \<open>BOARD_WIDTH\<close> cells each,
  as both \<open>createEmptyBoard\<close> build it.\<close>

definition wellFormed :: "Board \<Rightarrow> bool" where
  "wellFormed b =
     (int (length b) = BOARD_HEIGHT \<and> list_all (\<lambda>row. int (length row) = BOARD_WIDTH) b)"

text \<open>The collision condition as a formula over the cells of a shape, for a given test
  of an occupied shape cell and a given empty board cell: what the scanning loops of
  \<open>checkCollision\<close> and \<open>canMove\<close> are shown to compute.\<close>

definition hits :: "(jsval \<Rightarrow> bool) \<Rightarrow> jsval \<Rightarrow> Pos \<Rightarrow> jsval list list \<Rightarrow> Board \<Rightarrow> bool" where
  "hits occupied blank p sh b =
     (\<exists>row<length sh. \<exists>col<length (sh ! row).
        occupied (sh ! row ! col) \<and>
        (fst p + int col < 0 \<or> fst p + int col \<ge> BOARD_WIDTH \<or> snd p + int row \<ge> BOARD_HEIGHT \<or>
         (snd p + int row \<ge> 0 \<and> b ! nat (snd p + int row) ! nat (fst p + int col) \<noteq> blank)))"

text \<open>The keys the two \<open>keydown\<close> handlers tell apart.\<close>

datatype Key = ArrowLeft | ArrowRight | ArrowDown | ArrowUp | Space | KeyP | OtherKey

section \<open>The script variant\<close>

subsection \<open>Constants and state\<close>

type_synonym Piece = "jsval list list"

definition PIECES :: "Piece list" where
  "PIECES =
     [[[Num 1, Num 1, Num 1, Num 1]],
      [[Num 1, Num 1], [Num 1, Num 1]],
      [[Num 0, Num 1, Num 1], [Num 1, Num 1, Num 0]],
      [[Num 1, Num 1, Num 0], [Num 0, Num 1, Num 1]],
      [[Num 1, Num 0, Num 0], [Num 1, Num 1, Num 1]],
      [[Num 0, Num 0, Num 1], [Num 1, Num 1, Num 1]],
      [[Num 0, Num 1, Num 0], [Num 1, Num 1, Num 1]]]"

record GameState =
  board :: Board
  currentPiece :: Piece
  currentColor :: int
  nextPiece :: Piece
  nextColor :: int
  position :: Pos
  score :: jsnum
  lines :: int
  level :: int
  gameOver :: bool
  isPaused :: bool

text \<open>The script's \<open>createEmptyBoard\<close>: its empty cell is \<open>0\<close>.\<close>

definition createEmptyBoard_script :: Board where
  "createEmptyBoard_script = replicate (nat BOARD_HEIGHT) (replicate (nat BOARD_WIDTH) (Num 0))"

text \<open>\<open>getRandomPiece\<close>: the index \<open>Math.floor(Math.random() * PIECES.length)\<close> is a
  parameter, below \<open>PIECES.length\<close>.\<close>

definition getRandomPiece :: "nat \<Rightarrow> Piece \<times> int" where
  "getRandomPiece index = (PIECES ! index, int index)"

subsection \<open>Pure helpers\<close>

text \<open>\<open>rotated[j][n - 1 - i] = piece[i][j]\<close> throws when \<open>rotated[j]\<close> is missing
  (a row of \<open>piece\<close> longer than its first row), and \<open>piece[0].length\<close> throws on an
  empty piece.\<close>

definition rotatePiece :: "Piece \<Rightarrow> error + Piece" where
  "rotatePiece piece =
     (case piece of
        [] \<Rightarrow> Inl TypeError
      | row0 # _ \<Rightarrow>
          (let n = int (length piece)
           in forEachFrom 0 piece (\<lambda>i row.
                forEachFrom 0 row (\<lambda>j cell rotated. writeCell rotated j (n - 1 - i) cell))
                (replicate (length row0) (replicate (length piece) (Num 0)))))"

definition canMove :: "Board \<Rightarrow> Piece \<Rightarrow> int \<Rightarrow> int \<Rightarrow> error + bool" where
  "canMove brd piece x y =
     (case scanFrom 0 piece (\<lambda>i row.
             scanFrom 0 row (\<lambda>j cell.
               if truthy cell then
                 (let newX = x + j; newY = y + i in
                  if newX < 0 \<or> newX \<ge> BOARD_WIDTH \<or> newY \<ge> BOARD_HEIGHT then Inr True
                  else if newY \<ge> 0 then
                    (case jsIndex brd newY of
                       None \<Rightarrow> Inl TypeError
                     | Some brow \<Rightarrow> Inr (cellAt brow newX \<noteq> Num 0))
                  else Inr False)
               else Inr False)) of
        Inl e \<Rightarrow> Inl e
      | Inr blocked \<Rightarrow> Inr (\<not> blocked))"

definition placePiece :: "Board \<Rightarrow> Piece \<Rightarrow> int \<Rightarrow> int \<Rightarrow> int \<Rightarrow> error + Board" where
  "placePiece brd piece x y colr =
     forEachFrom 0 piece (\<lambda>i row.
       forEachFrom 0 row (\<lambda>j cell newBoard.
         if truthy cell then
           (let newY = y + i; newX = x + j in
            if newY \<ge> 0 \<and> newY < BOARD_HEIGHT \<and> newX \<ge> 0 \<and> newX < BOARD_WIDTH
            then writeCell newBoard newY newX (Num (colr + 1))
            else Inr newBoard)
         else Inr newBoard)) brd"

text \<open>
  The loop of \<open>clearLines\<close>, from the bottom row up.  A full row is spliced out and an
  empty row is put on top; \<open>i++\<close> then makes the loop look at index \<open>i\<close> again.
\<close>

function clearLines_loop :: "Board \<Rightarrow> int \<Rightarrow> int \<Rightarrow> error + Board \<times> int" where
  "clearLines_loop newBoard i linesCleared =
     (if i \<ge> 0 then
        (case jsIndex newBoard i of
           None \<Rightarrow> Inl TypeError
         | Some row \<Rightarrow>
             if list_all (\<lambda>cell. cell \<noteq> Num 0) row
             then clearLines_loop
                    (replicate (nat BOARD_WIDTH) (Num 0)
                       # (take (nat i) newBoard @ drop (Suc (nat i)) newBoard))
                    (i + 1 - 1) (linesCleared + 1)
             else clearLines_loop newBoard (i - 1) linesCleared)
      else Inr (newBoard, linesCleared))"
  by pat_completeness auto
termination
proof (relation "measure (\<lambda>(b, i, n).
         length (filter (list_all (\<lambda>cell. cell \<noteq> Num 0)) b) + nat (i + 1))", goal_cases)
  case 1
  show ?case by simp
next
  case (2 newBoard i linesCleared row)
  let ?full = "list_all (\<lambda>cell. cell \<noteq> Num 0)"
  from 2 have i: "nat i < length newBoard" and row: "row = newBoard ! nat i"
    by (auto simp: jsIndex_def split: if_splits)
  have "filter ?full newBoard =
      filter ?full (take (nat i) newBoard) @ filter ?full (drop (nat i) newBoard)"
    by (simp flip: filter_append)
  moreover have "drop (nat i) newBoard = row # drop (Suc (nat i)) newBoard"
    using i row by (simp add: Cons_nth_drop_Suc)
  ultimately have "length (filter ?full newBoard) =
      length (filter ?full (take (nat i) newBoard)) + 1
        + length (filter ?full (drop (Suc (nat i)) newBoard))"
    using 2(3) by simp
  moreover have "\<not> ?full (replicate (nat BOARD_WIDTH) (Num 0))"
    by (simp add: BOARD_WIDTH_def list_all_iff)
  ultimately show ?case by simp
next
  case (3 newBoard i linesCleared row)
  then show ?case by simp
qed

declare clearLines_loop.simps [simp del]

definition clearLines :: "Board \<Rightarrow> error + Board \<times> int" where
  "clearLines brd = clearLines_loop brd (int (length brd) - 1) 0"

subsection \<open>The component\<close>

text \<open>The initial state and \<open>resetGame\<close>: the first draw is the next piece, the second
  the current one.\<close>

definition initialGameState :: "nat \<Rightarrow> nat \<Rightarrow> GameState" where
  "initialGameState r1 r2 =
     \<lparr>board = createEmptyBoard_script,
      currentPiece = fst (getRandomPiece r2), currentColor = snd (getRandomPiece r2),
      nextPiece = fst (getRandomPiece r1), nextColor = snd (getRandomPiece r1),
      position = (3, 0), score = Number 0, lines = 0, level = 1,
      gameOver = False, isPaused = False\<rparr>"

definition resetGame :: "nat \<Rightarrow> nat \<Rightarrow> GameState \<Rightarrow> GameState" where
  "resetGame r1 r2 prev = initialGameState r1 r2"

text \<open>\<open>moveDown\<close>: the updater passed to \<open>setGameState\<close>.  The new next piece and its
  colour come from two separate draws.\<close>

definition moveDown :: "nat \<Rightarrow> nat \<Rightarrow> GameState \<Rightarrow> error + GameState" where
  "moveDown r1 r2 prev =
     (if gameOver prev \<or> isPaused prev then Inr prev
      else
        (let newY = snd (position prev) + 1 in
         case canMove (board prev) (currentPiece prev) (fst (position prev)) newY of
           Inl e \<Rightarrow> Inl e
         | Inr ok \<Rightarrow>
             if ok then Inr (prev\<lparr>position := (fst (position prev), newY)\<rparr>)
             else
               (case placePiece (board prev) (currentPiece prev) (fst (position prev))
                       (snd (position prev)) (currentColor prev) of
                  Inl e \<Rightarrow> Inl e
                | Inr placed \<Rightarrow>
                    (case clearLines placed of
                       Inl e \<Rightarrow> Inl e
                     | Inr (newBoard, linesCleared) \<Rightarrow>
                         (let newLines = lines prev + linesCleared;
                              newLevel = newLines div 10 + 1;
                              scoreIncrease =
                                (if linesCleared = 1 then 100
                                 else if linesCleared = 2 then 300
                                 else if linesCleared = 3 then 500
                                 else 800)
                          in case canMove newBoard (nextPiece prev) 3 0 of
                               Inl e \<Rightarrow> Inl e
                             | Inr ok2 \<Rightarrow>
                                 if \<not> ok2 then Inr (prev\<lparr>gameOver := True\<rparr>)
                                 else Inr (prev
                                   \<lparr>board := newBoard,
                                    currentPiece := nextPiece prev,
                                    currentColor := nextColor prev,
                                    position := (3, 0),
                                    score := jsPlus (score prev) (Number scoreIncrease),
                                    lines := newLines,
                                    level := newLevel,
                                    nextPiece := fst (getRandomPiece r1),
                                    nextColor := snd (getRandomPiece r2)\<rparr>))))))"

definition handleKeyDown :: "Key \<Rightarrow> nat \<Rightarrow> nat \<Rightarrow> GameState \<Rightarrow> error + GameState" where
  "handleKeyDown key r1 r2 prev =
     (if gameOver prev then Inr prev
      else
        (case key of
           ArrowLeft \<Rightarrow>
             (let newX = fst (position prev) - 1 in
              case canMove (board prev) (currentPiece prev) newX (snd (position prev)) of
                Inl e \<Rightarrow> Inl e
              | Inr ok \<Rightarrow>
                  if ok then Inr (prev\<lparr>position := (newX, snd (position prev))\<rparr>) else Inr prev)
         | ArrowRight \<Rightarrow>
             (let newX = fst (position prev) + 1 in
              case canMove (board prev) (currentPiece prev) newX (snd (position prev)) of
                Inl e \<Rightarrow> Inl e
              | Inr ok \<Rightarrow>
                  if ok then Inr (prev\<lparr>position := (newX, snd (position prev))\<rparr>) else Inr prev)
         | ArrowDown \<Rightarrow> moveDown r1 r2 prev
         | Space \<Rightarrow> Inr (prev\<lparr>isPaused := \<not> isPaused prev\<rparr>)
         | ArrowUp \<Rightarrow>
             (case rotatePiece (currentPiece prev) of
                Inl e \<Rightarrow> Inl e
              | Inr rotated \<Rightarrow>
                  (case canMove (board prev) rotated (fst (position prev)) (snd (position prev)) of
                     Inl e \<Rightarrow> Inl e
                   | Inr ok \<Rightarrow> if ok then Inr (prev\<lparr>currentPiece := rotated\<rparr>) else Inr prev))
         | KeyP \<Rightarrow> Inr prev
         | OtherKey \<Rightarrow> Inr prev))"

text \<open>The interval's tick, a key, and the reset buttons.\<close>

datatype ScriptEvent =
    ScriptTick nat nat
  | ScriptKey Key nat nat
  | ScriptReset nat nat

fun handleScriptEvent :: "ScriptEvent \<Rightarrow> GameState \<Rightarrow> error + GameState" where
  "handleScriptEvent (ScriptTick r1 r2) s = moveDown r1 r2 s"
| "handleScriptEvent (ScriptKey key r1 r2) s = handleKeyDown key r1 r2 s"
| "handleScriptEvent (ScriptReset r1 r2) s = Inr (resetGame r1 r2 s)"

fun drawsInRange :: "ScriptEvent \<Rightarrow> bool" where
  "drawsInRange (ScriptTick r1 r2) = (r1 < length PIECES \<and> r2 < length PIECES)"
| "drawsInRange (ScriptKey key r1 r2) = (r1 < length PIECES \<and> r2 < length PIECES)"
| "drawsInRange (ScriptReset r1 r2) = (r1 < length PIECES \<and> r2 < length PIECES)"

inductive reachableScript :: "GameState \<Rightarrow> bool" where
  reachableScript_init:
    "r1 < length PIECES \<Longrightarrow> r2 < length PIECES \<Longrightarrow> reachableScript (initialGameState r1 r2)"
| reachableScript_step:
    "reachableScript s \<Longrightarrow> drawsInRange ev \<Longrightarrow> handleScriptEvent ev s = Inr s'
       \<Longrightarrow> reachableScript s'"

section \<open>The hook variant\<close>

subsection \<open>Constants and types\<close>

type_synonym TetrominoShape = "jsval list list"

datatype TetrominoType = TypeI | TypeJ | TypeL | TypeO | TypeS | TypeT | TypeZ

text \<open>A catalogue entry with its key (\<open>{ type: key, ...TETROMINOES[key] }\<close>), and the
  falling piece, which carries its position as well.\<close>

record Tetromino =
  type :: TetrominoType
  shape :: TetrominoShape
  color :: string

record ActivePiece = Tetromino +
  pos :: Pos

fun TETROMINOES :: "TetrominoType \<Rightarrow> TetrominoShape \<times> string" where
  "TETROMINOES TypeI =
     ([[Num 0, Num 0, Num 0, Num 0], [Num 1, Num 1, Num 1, Num 1],
       [Num 0, Num 0, Num 0, Num 0], [Num 0, Num 0, Num 0, Num 0]], ''bg-cyan-400'')"
| "TETROMINOES TypeJ =
     ([[Num 1, Num 0, Num 0], [Num 1, Num 1, Num 1], [Num 0, Num 0, Num 0]], ''bg-blue-500'')"
| "TETROMINOES TypeL =
     ([[Num 0, Num 0, Num 1], [Num 1, Num 1, Num 1], [Num 0, Num 0, Num 0]], ''bg-orange-500'')"
| "TETROMINOES TypeO =
     ([[Num 1, Num 1], [Num 1, Num 1]], ''bg-yellow-400'')"
| "TETROMINOES TypeS =
     ([[Num 0, Num 1, Num 1], [Num 1, Num 1, Num 0], [Num 0, Num 0, Num 0]], ''bg-green-500'')"
| "TETROMINOES TypeT =
     ([[Num 0, Num 1, Num 0], [Num 1, Num 1, Num 1], [Num 0, Num 0, Num 0]], ''bg-purple-500'')"
| "TETROMINOES TypeZ =
     ([[Num 1, Num 1, Num 0], [Num 0, Num 1, Num 1], [Num 0, Num 0, Num 0]], ''bg-red-500'')"

definition TETROMINO_KEYS :: "TetrominoType list" where
  "TETROMINO_KEYS = [TypeI, TypeJ, TypeL, TypeO, TypeS, TypeT, TypeZ]"

definition createEmptyBoard :: Board where
  "createEmptyBoard = replicate (nat BOARD_HEIGHT) (replicate (nat BOARD_WIDTH) Null)"

text \<open>\<open>randomTetromino\<close> draws a key with \<open>Math.random\<close>; the drawn key is a parameter.\<close>

definition randomTetromino :: "TetrominoType \<Rightarrow> Tetromino" where
  "randomTetromino key =
     \<lparr>type = key, shape = fst (TETROMINOES key), color = snd (TETROMINOES key)\<rparr>"

subsection \<open>Game logic helpers\<close>

definition checkCollision :: "Pos \<Rightarrow> TetrominoShape \<Rightarrow> Board \<Rightarrow> error + bool" where
  "checkCollision piecePos pieceShape boardState =
     scanFrom 0 pieceShape (\<lambda>y row.
       scanFrom 0 row (\<lambda>x cell.
         if cell \<noteq> Num 0 then
           (let newX = fst piecePos + x; newY = snd piecePos + y in
            if newX < 0 \<or> newX \<ge> BOARD_WIDTH \<or> newY \<ge> BOARD_HEIGHT then Inr True
            else if newY \<ge> 0 then
              (case jsIndex boardState newY of
                 None \<Rightarrow> Inl TypeError
               | Some brow \<Rightarrow> Inr (cellAt brow newX \<noteq> Null))
            else Inr False)
         else Inr False))"

text \<open>\<open>matrix[0].map((val, index) => matrix.map((row) => row[index]).reverse())\<close>;
  \<open>matrix[0]\<close> of an empty matrix is \<open>undefined\<close>.\<close>

definition rotateMatrix :: "TetrominoShape \<Rightarrow> error + TetrominoShape" where
  "rotateMatrix matrix =
     (case matrix of
        [] \<Rightarrow> Inl TypeError
      | row0 # _ \<Rightarrow>
          Inr (map (\<lambda>index. rev (map (\<lambda>row. cellAt row (int index)) matrix)) [0..<length row0]))"


subsection \<open>State\<close>

text \<open>
  The component's hooks, as one record.  Every handler below runs on the state of the
  latest render and returns the state after its queued updates: the values a handler
  reads from its closure (\<open>board\<close>, \<open>currentPiece\<close>, \<open>lines\<close>, \<open>level\<close>, \<open>nextPiece\<close>) are
  the fields of the argument, and the functional updates (\<open>setScore((prev) => ...)\<close>)
  apply in the order they are queued.
\<close>

record TetrisGame =
  board :: Board
  currentPiece :: ActivePiece
  nextPiece :: Tetromino
  score :: jsnum
  lines :: int
  level :: int
  gameOver :: bool
  isPaused :: bool
  gameStarted :: bool

text \<open>\<open>{ ...piece, pos: p }\<close>\<close>

definition withPos :: "Tetromino \<Rightarrow> Pos \<Rightarrow> ActivePiece" where
  "withPos piece p = \<lparr>type = type piece, shape = shape piece, color = color piece, pos = p\<rparr>"

text \<open>The \<open>useState\<close> initial values; the two random draws are parameters.\<close>

definition initialState :: "TetrominoType \<Rightarrow> TetrominoType \<Rightarrow> TetrisGame" where
  "initialState k1 k2 =
     \<lparr>board = createEmptyBoard,
      currentPiece = withPos (randomTetromino k1) (BOARD_WIDTH div 2 - 1, 0),
      nextPiece = randomTetromino k2,
      score = Number 0, lines = 0, level = 1,
      gameOver = False, isPaused = False, gameStarted = False\<rparr>"

subsection \<open>Lock, clear and spawn\<close>

text \<open>Step 1 of \<open>lockPiece\<close>, also written out in \<open>hardDrop\<close>: the copy of the board
  and the two nested \<open>forEach\<close> that write the colour into it.\<close>

definition mergePiece :: "Pos \<Rightarrow> TetrominoShape \<Rightarrow> string \<Rightarrow> Board \<Rightarrow> error + Board" where
  "mergePiece p pieceShape pieceColor boardState =
     forEachFrom 0 pieceShape (\<lambda>y row.
       forEachFrom 0 row (\<lambda>x cell newBoard.
         if cell \<noteq> Num 0 then
           (let boardY = snd p + y; boardX = fst p + x in
            if boardY \<ge> 0 \<and> boardY < BOARD_HEIGHT \<and> boardX \<ge> 0 \<and> boardX < BOARD_WIDTH
            then writeCell newBoard boardY boardX (Str pieceColor)
            else Inr newBoard)
         else Inr newBoard)) boardState"

text \<open>Step 2 of \<open>processBoardUpdate\<close>: the \<open>filter\<close> whose callback counts the full
  rows in \<open>linesCleared\<close>.\<close>

fun filterRows :: "Board \<Rightarrow> int \<Rightarrow> Board \<times> int" where
  "filterRows [] linesCleared = ([], linesCleared)"
| "filterRows (row # rest) linesCleared =
     (let isFull = list_all (\<lambda>cell. cell \<noteq> Null) row;
          counted = (if isFull then linesCleared + 1 else linesCleared);
          (kept, total) = filterRows rest counted
      in (if \<not> isFull then row # kept else kept, total))"

text \<open>Step 3: \<open>while (finalBoard.length < BOARD_HEIGHT) finalBoard.unshift(...)\<close>.\<close>

function addEmptyLines :: "Board \<Rightarrow> Board" where
  "addEmptyLines finalBoard =
     (if int (length finalBoard) < BOARD_HEIGHT
      then addEmptyLines (replicate (nat BOARD_WIDTH) Null # finalBoard)
      else finalBoard)"
  by pat_completeness auto
termination
  by (relation "measure (\<lambda>b. nat BOARD_HEIGHT - length b)") (auto simp: BOARD_HEIGHT_def)

declare addEmptyLines.simps [simp del]

definition clearRows :: "Board \<Rightarrow> Board \<times> int" where
  "clearRows nextBoardState =
     (let (finalBoard, linesCleared) = filterRows nextBoardState 0
      in (addEmptyLines finalBoard, linesCleared))"

definition scoreMultipliers :: "int list" where
  "scoreMultipliers = [0, 100, 300, 500, 800]"

text \<open>Step 4: the statistics; \<open>scoreMultipliers[linesCleared] * level\<close> is \<open>NaN\<close> when
  the index is past the table, and the rounded product otherwise.\<close>

definition updateStats :: "int \<Rightarrow> TetrisGame \<Rightarrow> TetrisGame" where
  "updateStats linesCleared s =
     (if linesCleared > 0 then
        s\<lparr>lines := lines s + linesCleared,
          score := jsPlus (score s)
            (case jsIndex scoreMultipliers linesCleared of
               None \<Rightarrow> NaN
             | Some m \<Rightarrow> toNumber (m * level s)),
          level := (lines s + linesCleared) div 10 + 1\<rparr>
      else s)"

text \<open>Step 5: spawn the next piece and check for game over; \<open>rnd\<close> is the key that
  \<open>randomTetromino\<close> draws.\<close>

definition spawnNext :: "Board \<Rightarrow> TetrominoType \<Rightarrow> TetrisGame \<Rightarrow> error + TetrisGame" where
  "spawnNext finalBoard rnd s =
     (case shape (nextPiece s) of
        [] \<Rightarrow> Inl TypeError
      | row0 # _ \<Rightarrow>
          (let newPiece = withPos (nextPiece s)
                 (BOARD_WIDTH div 2 - int (length row0) div 2, 0)
           in case checkCollision (pos newPiece) (shape newPiece) finalBoard of
                Inl e \<Rightarrow> Inl e
              | Inr collides \<Rightarrow>
                  if collides then Inr (s\<lparr>gameOver := True, gameStarted := False\<rparr>)
                  else Inr (s\<lparr>currentPiece := newPiece, nextPiece := randomTetromino rnd\<rparr>)))"

definition processBoardUpdate :: "Board \<Rightarrow> TetrominoType \<Rightarrow> TetrisGame \<Rightarrow> error + TetrisGame" where
  "processBoardUpdate nextBoardState rnd s =
     (let (finalBoard, linesCleared) = clearRows nextBoardState
      in spawnNext finalBoard rnd ((updateStats linesCleared s)\<lparr>board := finalBoard\<rparr>))"

definition lockPiece :: "TetrominoType \<Rightarrow> TetrisGame \<Rightarrow> error + TetrisGame" where
  "lockPiece rnd s =
     (case mergePiece (pos (currentPiece s)) (shape (currentPiece s)) (color (currentPiece s))
             (board s) of
        Inl e \<Rightarrow> Inl e
      | Inr newBoard \<Rightarrow> processBoardUpdate newBoard rnd s)"

subsection \<open>Actions\<close>

text \<open>The component's \<open>rotate\<close> and \<open>drop\<close> are \<open>rotate'\<close> and \<open>drop'\<close> here: the list
  library has functions of those names.\<close>

definition move :: "int \<Rightarrow> int \<Rightarrow> TetrisGame \<Rightarrow> error + bool \<times> TetrisGame" where
  "move dirX dirY s =
     (if gameOver s \<or> isPaused s \<or> \<not> gameStarted s then Inr (False, s)
      else
        (let newPos = (fst (pos (currentPiece s)) + dirX, snd (pos (currentPiece s)) + dirY)
         in case checkCollision newPos (shape (currentPiece s)) (board s) of
              Inl e \<Rightarrow> Inl e
            | Inr collides \<Rightarrow>
                if \<not> collides
                then Inr (True, s\<lparr>currentPiece := (currentPiece s)\<lparr>pos := newPos\<rparr>\<rparr>)
                else Inr (False, s)))"

definition rotate' :: "TetrisGame \<Rightarrow> error + TetrisGame" where
  "rotate' s =
     (if gameOver s \<or> isPaused s \<or> \<not> gameStarted s then Inr s
      else
        (case rotateMatrix (shape (currentPiece s)) of
           Inl e \<Rightarrow> Inl e
         | Inr rotatedShape \<Rightarrow>
             (let p = pos (currentPiece s) in
              (case checkCollision p rotatedShape (board s) of
                 Inl e \<Rightarrow> Inl e
               | Inr c0 \<Rightarrow>
                   if \<not> c0
                   then Inr (s\<lparr>currentPiece := (currentPiece s)\<lparr>shape := rotatedShape\<rparr>\<rparr>)
                   else
                     (case checkCollision (fst p - 1, snd p) rotatedShape (board s) of
                        Inl e \<Rightarrow> Inl e
                      | Inr c1 \<Rightarrow>
                          if \<not> c1
                          then Inr (s\<lparr>currentPiece :=
                                 (currentPiece s)\<lparr>pos := (fst p - 1, snd p)\<rparr>
                                   \<lparr>shape := rotatedShape\<rparr>\<rparr>)
                          else
                            (case checkCollision (fst p + 1, snd p) rotatedShape (board s) of
                               Inl e \<Rightarrow> Inl e
                             | Inr c2 \<Rightarrow>
                                 if \<not> c2
                                 then Inr (s\<lparr>currentPiece :=
                                        (currentPiece s)\<lparr>pos := (fst p + 1, snd p)\<rparr>
                                          \<lparr>shape := rotatedShape\<rparr>\<rparr>)
                                 else Inr s))))))"

definition drop' :: "TetrominoType \<Rightarrow> TetrisGame \<Rightarrow> error + TetrisGame" where
  "drop' rnd s =
     (if gameOver s \<or> isPaused s \<or> \<not> gameStarted s then Inr s
      else
        (let newPos = (fst (pos (currentPiece s)), snd (pos (currentPiece s)) + 1)
         in case checkCollision newPos (shape (currentPiece s)) (board s) of
              Inl e \<Rightarrow> Inl e
            | Inr collides \<Rightarrow>
                if \<not> collides then Inr (s\<lparr>currentPiece := (currentPiece s)\<lparr>pos := newPos\<rparr>\<rparr>)
                else lockPiece rnd s))"

text \<open>
  The two \<open>while\<close> loops of \<open>hardDrop\<close> (\<open>currentY\<close>, then \<open>finalY\<close>).  Each may run
  forever (a shape with no occupied cell never collides), so each is a partial
  function: \<open>None\<close> is a loop that does not end.
\<close>

partial_function (option) hardDrop_currentY ::
  "int \<Rightarrow> int \<Rightarrow> TetrominoShape \<Rightarrow> Board \<Rightarrow> (error + int) option" where
  "hardDrop_currentY px currentY pieceShape boardState =
     (case checkCollision (px, currentY + 1) pieceShape boardState of
        Inl e \<Rightarrow> Some (Inl e)
      | Inr collides \<Rightarrow>
          if \<not> collides then hardDrop_currentY px (currentY + 1) pieceShape boardState
          else Some (Inr currentY))"

partial_function (option) hardDrop_finalY ::
  "int \<Rightarrow> int \<Rightarrow> TetrominoShape \<Rightarrow> Board \<Rightarrow> (error + int) option" where
  "hardDrop_finalY px finalY pieceShape boardState =
     (case checkCollision (px, finalY + 1) pieceShape boardState of
        Inl e \<Rightarrow> Some (Inl e)
      | Inr collides \<Rightarrow>
          if \<not> collides then hardDrop_finalY px (finalY + 1) pieceShape boardState
          else Some (Inr finalY))"

definition hardDrop :: "TetrominoType \<Rightarrow> TetrisGame \<Rightarrow> (error + TetrisGame) option" where
  "hardDrop rnd s =
     (if gameOver s \<or> isPaused s \<or> \<not> gameStarted s then Some (Inr s)
      else
        (let cp = currentPiece s; px = fst (pos cp) in
         case hardDrop_currentY px (snd (pos cp)) (shape cp) (board s) of
           None \<Rightarrow> None
         | Some (Inl e) \<Rightarrow> Some (Inl e)
         | Some (Inr currentY) \<Rightarrow>
             (let s1 = s\<lparr>currentPiece := cp\<lparr>pos := (px, currentY)\<rparr>\<rparr> in
              case hardDrop_finalY px (snd (pos cp)) (shape cp) (board s) of
                None \<Rightarrow> None
              | Some (Inl e) \<Rightarrow> Some (Inl e)
              | Some (Inr finalY) \<Rightarrow>
                  (case mergePiece (px, finalY) (shape cp) (color cp) (board s) of
                     Inl e \<Rightarrow> Some (Inl e)
                   | Inr lockedBoard \<Rightarrow> Some (processBoardUpdate lockedBoard rnd s1)))))"

definition startGame :: "TetrominoType \<Rightarrow> TetrominoType \<Rightarrow> TetrisGame \<Rightarrow> TetrisGame" where
  "startGame k1 k2 s =
     s\<lparr>board := createEmptyBoard,
       currentPiece := withPos (randomTetromino k1) (BOARD_WIDTH div 2 - 1, 0),
       nextPiece := randomTetromino k2,
       score := Number 0, lines := 0, level := 1,
       gameOver := False, isPaused := False, gameStarted := True\<rparr>"

subsection \<open>Display\<close>

text \<open>The \<open>while\<close> loop of the ghost piece in \<open>getDisplayBoard\<close>.\<close>

partial_function (option) ghostY_loop ::
  "int \<Rightarrow> int \<Rightarrow> TetrominoShape \<Rightarrow> Board \<Rightarrow> (error + int) option" where
  "ghostY_loop px ghostY pieceShape boardState =
     (case checkCollision (px, ghostY + 1) pieceShape boardState of
        Inl e \<Rightarrow> Some (Inl e)
      | Inr collides \<Rightarrow>
          if \<not> collides then ghostY_loop px (ghostY + 1) pieceShape boardState
          else Some (Inr ghostY))"




subsection \<open>Inputs\<close>

definition handleKeyPress :: "Key \<Rightarrow> TetrominoType \<Rightarrow> TetrisGame \<Rightarrow> (error + TetrisGame) option" where
  "handleKeyPress key rnd s =
     (if gameOver s \<or> \<not> gameStarted s then Some (Inr s)
      else if \<not> isPaused s then
        (case key of
           ArrowLeft \<Rightarrow> Some (map_sum id snd (move (- 1) 0 s))
         | ArrowRight \<Rightarrow> Some (map_sum id snd (move 1 0 s))
         | ArrowDown \<Rightarrow>
             Some (case drop' rnd s of
                     Inl e \<Rightarrow> Inl e
                   | Inr s' \<Rightarrow> Inr (s'\<lparr>score := jsPlus (score s') (Number 1)\<rparr>))
         | ArrowUp \<Rightarrow> Some (rotate' s)
         | Space \<Rightarrow> hardDrop rnd s
         | KeyP \<Rightarrow> Some (Inr (s\<lparr>isPaused := \<not> isPaused s\<rparr>))
         | OtherKey \<Rightarrow> Some (Inr s))
      else if key = KeyP then Some (Inr (s\<lparr>isPaused := \<not> isPaused s\<rparr>))
      else Some (Inr s))"

text \<open>Everything that can happen to the component: the interval's tick, a key, and
  the buttons (start or play again, resume, and the mobile controls).  The random key a
  handler may draw comes with the event.\<close>

datatype Event =
    Tick TetrominoType
  | KeyDown Key TetrominoType
  | ClickStart TetrominoType TetrominoType
  | ClickResume
  | ClickPause
  | ClickRotate
  | ClickDrop TetrominoType
  | ClickMove int int
  | ClickHardDrop TetrominoType

fun handleEvent :: "Event \<Rightarrow> TetrisGame \<Rightarrow> (error + TetrisGame) option" where
  "handleEvent (Tick rnd) s = Some (drop' rnd s)"
| "handleEvent (KeyDown key rnd) s = handleKeyPress key rnd s"
| "handleEvent (ClickStart k1 k2) s = Some (Inr (startGame k1 k2 s))"
| "handleEvent ClickResume s = Some (Inr (s\<lparr>isPaused := False\<rparr>))"
| "handleEvent ClickPause s = Some (Inr (s\<lparr>isPaused := \<not> isPaused s\<rparr>))"
| "handleEvent ClickRotate s = Some (rotate' s)"
| "handleEvent (ClickDrop rnd) s = Some (drop' rnd s)"
| "handleEvent (ClickMove dirX dirY) s = Some (map_sum id snd (move dirX dirY s))"
| "handleEvent (ClickHardDrop rnd) s = hardDrop rnd s"

inductive reachable :: "TetrisGame \<Rightarrow> bool" where
  reachable_init: "reachable (initialState k1 k2)"
| reachable_step: "reachable s \<Longrightarrow> handleEvent ev s = Some (Inr s') \<Longrightarrow> reachable s'"

section \<open>Rows as objects\<close>

text \<open>
  The boards above are values.  Where a claim says that a function leaves its input
  unmodified, the row arrays are objects: the store is the list of all row arrays
  allocated so far, an address is an index into it, and a board is the list of the
  addresses of its rows.  \<open>board.map((row) => [...row])\<close> allocates a fresh copy of every
  row, and \<open>newBoard[r][c] = v\<close> overwrites the row object that \<open>newBoard[r]\<close> points to.
\<close>

type_synonym Store = "jsval list list"
type_synonym BoardRef = "nat list"

text \<open>The board a reference stands for, the copy \<open>board.map((row) => [...row])\<close> (the
  new rows are appended to the store), and the write \<open>newBoard[r][c] = v\<close>.\<close>

definition deref :: "Store \<Rightarrow> BoardRef \<Rightarrow> Board" where
  "deref st ref = map (\<lambda>a. st ! a) ref"

definition copyRows :: "Store \<Rightarrow> BoardRef \<Rightarrow> Store \<times> BoardRef" where
  "copyRows st ref = (st @ map (\<lambda>a. st ! a) ref, [length st..<length st + length ref])"

definition writeCellAt :: "Store \<Rightarrow> BoardRef \<Rightarrow> int \<Rightarrow> int \<Rightarrow> jsval \<Rightarrow> error + Store" where
  "writeCellAt st ref r c v =
     (case jsIndex ref r of
        None \<Rightarrow> Inl TypeError
      | Some a \<Rightarrow> Inr (st[a := jsSet (st ! a) c v]))"

text \<open>Step 1 of \<open>lockPiece\<close> and \<open>placePiece\<close> on the store: the copy of the rows, then
  the writes through the copy.  The result is the store after the call and the board
  that the call returns.\<close>

definition mergePiece_store ::
  "Pos \<Rightarrow> TetrominoShape \<Rightarrow> string \<Rightarrow> Store \<Rightarrow> BoardRef \<Rightarrow> error + Store \<times> BoardRef" where
  "mergePiece_store p pieceShape pieceColor st boardRef =
     (let (st1, newBoard) = copyRows st boardRef in
      case forEachFrom 0 pieceShape (\<lambda>y row.
             forEachFrom 0 row (\<lambda>x cell st'.
               if cell \<noteq> Num 0 then
                 (let boardY = snd p + y; boardX = fst p + x in
                  if boardY \<ge> 0 \<and> boardY < BOARD_HEIGHT \<and> boardX \<ge> 0 \<and> boardX < BOARD_WIDTH
                  then writeCellAt st' newBoard boardY boardX (Str pieceColor)
                  else Inr st')
               else Inr st')) st1 of
        Inl e \<Rightarrow> Inl e
      | Inr st2 \<Rightarrow> Inr (st2, newBoard))"

definition placePiece_store ::
  "Store \<Rightarrow> BoardRef \<Rightarrow> Piece \<Rightarrow> int \<Rightarrow> int \<Rightarrow> int \<Rightarrow> error + Store \<times> BoardRef" where
  "placePiece_store st boardRef piece x y colr =
     (let (st1, newBoard) = copyRows st boardRef in
      case forEachFrom 0 piece (\<lambda>i row.
             forEachFrom 0 row (\<lambda>j cell st'.
               if truthy cell then
                 (let newY = y + i; newX = x + j in
                  if newY \<ge> 0 \<and> newY < BOARD_HEIGHT \<and> newX \<ge> 0 \<and> newX < BOARD_WIDTH
                  then writeCellAt st' newBoard newY newX (Num (colr + 1))
                  else Inr st')
               else Inr st')) st1 of
        Inl e \<Rightarrow> Inl e
      | Inr st2 \<Rightarrow> Inr (st2, newBoard))"




section \<open>Predicates and generic loops used in the proofs\<close>

text \<open>The cells of the board that a shape at a position lies on.\<close>

definition covers :: "(jsval \<Rightarrow> bool) \<Rightarrow> Pos \<Rightarrow> jsval list list \<Rightarrow> nat \<Rightarrow> nat \<Rightarrow> bool" where
  "covers occupied p sh r c =
     (\<exists>row<length sh. \<exists>col<length (sh ! row).
        occupied (sh ! row ! col) \<and> snd p + int row = int r \<and> fst p + int col = int c)"

text \<open>The shape of the writing loops of \<open>mergePiece\<close> and \<open>placePiece\<close>, by the test of an
  occupied cell and the value written; and the same loop on the store.\<close>

definition paintShape :: "(jsval \<Rightarrow> bool) \<Rightarrow> jsval \<Rightarrow> Pos \<Rightarrow> jsval list list \<Rightarrow> Board \<Rightarrow> error + Board" where
  "paintShape occupied v p sh b =
     forEachFrom 0 sh (\<lambda>y row.
       forEachFrom 0 row (\<lambda>x cell nb.
         if occupied cell then
           (if snd p + y \<ge> 0 \<and> snd p + y < BOARD_HEIGHT
                 \<and> fst p + x \<ge> 0 \<and> fst p + x < BOARD_WIDTH
            then writeCell nb (snd p + y) (fst p + x) v
            else Inr nb)
         else Inr nb)) b"

definition paintShape_store ::
  "(jsval \<Rightarrow> bool) \<Rightarrow> jsval \<Rightarrow> Pos \<Rightarrow> jsval list list \<Rightarrow> BoardRef \<Rightarrow> Store \<Rightarrow> error + Store" where
  "paintShape_store occupied v p sh ref st =
     forEachFrom 0 sh (\<lambda>y row.
       forEachFrom 0 row (\<lambda>x cell st'.
         if occupied cell then
           (if snd p + y \<ge> 0 \<and> snd p + y < BOARD_HEIGHT
                 \<and> fst p + x \<ge> 0 \<and> fst p + x < BOARD_WIDTH
            then writeCellAt st' ref (snd p + y) (fst p + x) v
            else Inr st')
         else Inr st')) st"

text \<open>\<open>nb\<close> is a well-formed board that holds \<open>v\<close> on the cells \<open>C\<close> and the cells of \<open>b\<close>
  elsewhere.\<close>

definition painted :: "(nat \<Rightarrow> nat \<Rightarrow> bool) \<Rightarrow> jsval \<Rightarrow> Board \<Rightarrow> Board \<Rightarrow> bool" where
  "painted C v b nb =
     (wellFormed nb \<and> (\<forall>r<20. \<forall>c<10. nb ! r ! c = (if C r c then v else b ! r ! c)))"

text \<open>The store \<open>st'\<close> holds the board \<open>nb\<close> at \<open>ref\<close> and agrees with \<open>st\<close> elsewhere.\<close>

definition holds :: "Store \<Rightarrow> BoardRef \<Rightarrow> Store \<Rightarrow> Board \<Rightarrow> bool" where
  "holds st ref st' nb =
     (length st' = length st \<and> deref st' ref = nb \<and> (\<forall>a<length st. a \<notin> set ref \<longrightarrow> st' ! a = st ! a))"

section \<open>Example states\<close>

text \<open>
  Concrete states on which the properties below are evaluated: a running game with an O
  piece at its spawn position (\<open>exRunning\<close>); script states whose I piece completes the
  bottom row (\<open>exScriptRow\<close>, at level 2) or rests in the top row on a stack that reaches
  row 1 (\<open>exScriptTop\<close>); an I piece whose rotation is blocked by a single block and fits
  one column to either side (\<open>exKickBoth\<close>); an upright I piece in column 0
  (\<open>exKickWall\<close>); and an upright script I piece in column 7 (\<open>exScriptKick\<close>).
\<close>

definition exRunning :: TetrisGame where
  "exRunning = startGame TypeO TypeT (initialState TypeI TypeJ)"

definition exScriptRow :: GameState where
  "exScriptRow =
     (initialGameState 1 0)
       \<lparr>GameState.board := replicate 19 (replicate 10 (Num 0))
               @ [[Num 1, Num 1, Num 1, Num 1, Num 1, Num 1, Num 0, Num 0, Num 0, Num 0]],
        position := (6, 19), GameState.lines := 10, GameState.level := 2\<rparr>"

definition exScriptTop :: GameState where
  "exScriptTop =
     (initialGameState 1 0)
       \<lparr>GameState.board := replicate 10 (Num 0)
               # replicate 19 [Num 0, Num 0, Num 0, Num 1, Num 1, Num 1, Num 1, Num 0, Num 0, Num 0]\<rparr>"

definition exKickBoth :: TetrisGame where
  "exKickBoth =
     exRunning
       \<lparr>TetrisGame.board := createEmptyBoard[8 := (replicate 10 Null)[5 := Str ''bg-red-500'']],
        TetrisGame.currentPiece := withPos (randomTetromino TypeI) (3, 5)\<rparr>"

definition exKickWall :: TetrisGame where
  "exKickWall =
     exRunning
       \<lparr>TetrisGame.currentPiece :=
          (withPos (randomTetromino TypeI) (- 1, 5))
            \<lparr>shape := [[Num 0, Num 1, Num 0, Num 0], [Num 0, Num 1, Num 0, Num 0],
                       [Num 0, Num 1, Num 0, Num 0], [Num 0, Num 1, Num 0, Num 0]]\<rparr>\<rparr>"

definition exScriptKick :: GameState where
  "exScriptKick =
     (initialGameState 1 0)
       \<lparr>GameState.currentPiece := [[Num 1], [Num 1], [Num 1], [Num 1]], position := (7, 5)\<rparr>"

section \<open>Properties\<close>

subsection \<open>The scanning loop and the collision predicate\<close>

lemma scanFrom_pure:
  "(\<And>k. k < length xs \<Longrightarrow> body (i + int k) (xs ! k) = Inr (p (i + int k) (xs ! k)))
    \<Longrightarrow> scanFrom i xs body = Inr (\<exists>k<length xs. p (i + int k) (xs ! k))"
proof (induction xs arbitrary: i)
  case Nil
  show ?case by simp
next
  case (Cons a as)
  have head: "body i a = Inr (p i a)"
    using Cons.prems [of 0] by simp
  have tail: "scanFrom (i + 1) as body = Inr (\<exists>k<length as. p (i + 1 + int k) (as ! k))"
  proof (rule Cons.IH)
    fix k assume "k < length as"
    then show "body (i + 1 + int k) (as ! k) = Inr (p (i + 1 + int k) (as ! k))"
      using Cons.prems [of "Suc k"] by (simp add: algebra_simps)
  qed
  have ex: "(\<exists>k<length (a # as). p (i + int k) ((a # as) ! k))
      = (p i a \<or> (\<exists>k<length as. p (i + 1 + int k) (as ! k)))"
    by (auto simp: less_Suc_eq_0_disj algebra_simps)
  show ?case
    by (simp only: scanFrom.simps head tail ex sum.case) auto
qed

lemma wellFormed_row:
  "wellFormed b \<Longrightarrow> 0 \<le> r \<Longrightarrow> r < BOARD_HEIGHT \<Longrightarrow> jsIndex b r = Some (b ! nat r)"
  by (simp add: wellFormed_def jsIndex_def)

lemma wellFormed_cell:
  "wellFormed b \<Longrightarrow> 0 \<le> r \<Longrightarrow> r < BOARD_HEIGHT \<Longrightarrow> 0 \<le> c \<Longrightarrow> c < BOARD_WIDTH
    \<Longrightarrow> cellAt (b ! nat r) c = b ! nat r ! nat c"
  by (auto simp: wellFormed_def cellAt_def jsIndex_def list_all_length)

lemma checkCollision_hits:
  assumes "wellFormed b"
  shows "checkCollision p sh b = Inr (hits (\<lambda>c. c \<noteq> Num 0) Null p sh b)"
  unfolding checkCollision_def hits_def
  apply (subst scanFrom_pure [where p = "\<lambda>yy row. \<exists>col<length row. row ! col \<noteq> Num 0 \<and>
        (fst p + int col < 0 \<or> fst p + int col \<ge> BOARD_WIDTH \<or> snd p + yy \<ge> BOARD_HEIGHT \<or>
         (snd p + yy \<ge> 0 \<and> b ! nat (snd p + yy) ! nat (fst p + int col) \<noteq> Null))"])
   apply (subst scanFrom_pure [where p = "\<lambda>xx cell. cell \<noteq> Num 0 \<and>
        (fst p + xx < 0 \<or> fst p + xx \<ge> BOARD_WIDTH \<or> snd p + int k \<ge> BOARD_HEIGHT \<or>
         (snd p + int k \<ge> 0 \<and> b ! nat (snd p + int k) ! nat (fst p + xx) \<noteq> Null))" for k])
  using assms
    apply (auto simp: Let_def wellFormed_row wellFormed_cell)
  done


lemma canMove_hits:
  assumes "wellFormed b"
  shows "canMove b sh x y = Inr (\<not> hits truthy (Num 0) (x, y) sh b)"
  unfolding canMove_def hits_def
  apply (subst scanFrom_pure [where p = "\<lambda>yy row. \<exists>col<length row. truthy (row ! col) \<and>
        (x + int col < 0 \<or> x + int col \<ge> BOARD_WIDTH \<or> y + yy \<ge> BOARD_HEIGHT \<or>
         (y + yy \<ge> 0 \<and> b ! nat (y + yy) ! nat (x + int col) \<noteq> Num 0))"])
   apply (subst scanFrom_pure [where p = "\<lambda>xx cell. truthy cell \<and>
        (x + xx < 0 \<or> x + xx \<ge> BOARD_WIDTH \<or> y + int k \<ge> BOARD_HEIGHT \<or>
         (y + int k \<ge> 0 \<and> b ! nat (y + int k) ! nat (x + xx) \<noteq> Num 0))" for k])
  using assms
    apply (auto simp: Let_def wellFormed_row wellFormed_cell)
  done

lemma wellFormed_createEmptyBoard: "wellFormed createEmptyBoard"
  by (simp add: wellFormed_def createEmptyBoard_def BOARD_HEIGHT_def BOARD_WIDTH_def list_all_iff)

lemma wellFormed_createEmptyBoard_script: "wellFormed createEmptyBoard_script"
  by (simp add: wellFormed_def createEmptyBoard_script_def BOARD_HEIGHT_def BOARD_WIDTH_def list_all_iff)

text \<open>
  Claim C1, as amended.  On a well-formed board the collision predicate (\<open>checkCollision\<close>
  in the hook variant, the negation of \<open>canMove\<close> in the script variant) returns true
  exactly when some occupied cell of the shape, at offset \<open>(col, row)\<close>, has \<open>x + col\<close>
  outside \<open>[0, 10)\<close>, or \<open>y + row \<ge> 20\<close>, or has \<open>y + row \<ge> 0\<close> and a non-empty board cell
  there.  A shape whose occupied cells all lie above the board (\<open>y + row < 0\<close>) and within
  the columns \<open>[0, 10)\<close> never collides, whatever the board holds.
\<close>

theorem collision_iff:
  assumes "wellFormed b"
  shows
    "checkCollision (x, y) sh b =
       Inr (\<exists>row<length sh. \<exists>col<length (sh ! row).
              sh ! row ! col \<noteq> Num 0 \<and>
              (x + int col < 0 \<or> x + int col \<ge> 10 \<or> y + int row \<ge> 20 \<or>
               (y + int row \<ge> 0 \<and> b ! nat (y + int row) ! nat (x + int col) \<noteq> Null)))
     \<and> canMove b sh x y =
       Inr (\<not> (\<exists>row<length sh. \<exists>col<length (sh ! row).
              truthy (sh ! row ! col) \<and>
              (x + int col < 0 \<or> x + int col \<ge> 10 \<or> y + int row \<ge> 20 \<or>
               (y + int row \<ge> 0 \<and> b ! nat (y + int row) ! nat (x + int col) \<noteq> Num 0))))
     \<and> ((\<forall>row<length sh. \<forall>col<length (sh ! row).
            sh ! row ! col \<noteq> Num 0 \<longrightarrow> y + int row < 0 \<and> 0 \<le> x + int col \<and> x + int col < 10)
          \<longrightarrow> checkCollision (x, y) sh b = Inr False)
     \<and> ((\<forall>row<length sh. \<forall>col<length (sh ! row).
            truthy (sh ! row ! col) \<longrightarrow> y + int row < 0 \<and> 0 \<le> x + int col \<and> x + int col < 10)
          \<longrightarrow> canMove b sh x y = Inr True)"
proof -
  have c: "checkCollision (x, y) sh b = Inr (hits (\<lambda>c. c \<noteq> Num 0) Null (x, y) sh b)"
    using assms by (rule checkCollision_hits)
  have m: "canMove b sh x y = Inr (\<not> hits truthy (Num 0) (x, y) sh b)"
    using assms by (rule canMove_hits)
  have g1: "hits (\<lambda>c. c \<noteq> Num 0) Null (x, y) sh b = False"
    if "\<forall>row<length sh. \<forall>col<length (sh ! row).
          sh ! row ! col \<noteq> Num 0 \<longrightarrow> y + int row < 0 \<and> 0 \<le> x + int col \<and> x + int col < 10"
    using that unfolding hits_def BOARD_WIDTH_def BOARD_HEIGHT_def by fastforce
  have g2: "hits truthy (Num 0) (x, y) sh b = False"
    if "\<forall>row<length sh. \<forall>col<length (sh ! row).
          truthy (sh ! row ! col) \<longrightarrow> y + int row < 0 \<and> 0 \<le> x + int col \<and> x + int col < 10"
    using that unfolding hits_def BOARD_WIDTH_def BOARD_HEIGHT_def by fastforce
  show ?thesis
    unfolding c m using g1 g2 by (simp add: hits_def BOARD_WIDTH_def BOARD_HEIGHT_def)
qed

theorem collision_iff_witness:
  "wellFormed createEmptyBoard
   \<and> checkCollision (4, - 2) (fst (TETROMINOES TypeT)) createEmptyBoard = Inr False
   \<and> canMove createEmptyBoard (PIECES ! 6) 4 (- 2) = Inr True"
proof -
  have a: "\<forall>row<length (fst (TETROMINOES TypeT)). \<forall>col<length (fst (TETROMINOES TypeT) ! row).
      fst (TETROMINOES TypeT) ! row ! col \<noteq> Num 0 \<longrightarrow>
        - 2 + int row < 0 \<and> 0 \<le> (4::int) + int col \<and> (4::int) + int col < 10"
    by (simp add: numeral_eq_Suc All_less_Suc)
  have b: "\<forall>row<length (PIECES ! 6). \<forall>col<length (PIECES ! 6 ! row).
      truthy (PIECES ! 6 ! row ! col) \<longrightarrow>
        - 2 + int row < 0 \<and> 0 \<le> (4::int) + int col \<and> (4::int) + int col < 10"
    by (simp add: PIECES_def numeral_eq_Suc All_less_Suc)
  show ?thesis
    using collision_iff [OF wellFormed_createEmptyBoard,
        where x = 4 and y = "- 2" and sh = "fst (TETROMINOES TypeT)"]
      collision_iff [OF wellFormed_createEmptyBoard,
        where x = 4 and y = "- 2" and sh = "PIECES ! 6"]
      a b wellFormed_createEmptyBoard by blast
qed

text \<open>
  The claim as first stated let no cell above the board cause a collision.  The column
  bounds are checked for every occupied cell: a single occupied cell at \<open>(-1, -1)\<close>
  collides on the empty board.
\<close>

theorem collision_negative_row_counterexample:
  "checkCollision (- 1, - 1) [[Num 1]] createEmptyBoard = Inr True
   \<and> canMove createEmptyBoard_script [[Num 1]] (- 1) (- 1) = Inr False"
  by (simp add: checkCollision_def canMove_def BOARD_WIDTH_def)

subsection \<open>The clear step\<close>

lemma filterRows_eq:
  "filterRows b n =
     (filter (\<lambda>row. \<not> list_all (\<lambda>cell. cell \<noteq> Null) row) b,
      n + int (length (filter (list_all (\<lambda>cell. cell \<noteq> Null)) b)))"
  by (induction b arbitrary: n) (simp_all add: Let_def)

lemma addEmptyLines_eq:
  "length fb \<le> 20 \<Longrightarrow>
     addEmptyLines fb = replicate (20 - length fb) (replicate 10 Null) @ fb"
proof (induction fb rule: addEmptyLines.induct)
  case (1 finalBoard)
  show ?case
  proof (cases "int (length finalBoard) < BOARD_HEIGHT")
    case True
    then have lt: "length finalBoard < 20" by (simp add: BOARD_HEIGHT_def)
    then have "addEmptyLines (replicate (nat BOARD_WIDTH) Null # finalBoard)
        = replicate (20 - Suc (length finalBoard)) (replicate 10 Null)
            @ replicate (nat BOARD_WIDTH) Null # finalBoard"
      using "1.IH" [OF True] by simp
    moreover have "20 - length finalBoard = Suc (20 - Suc (length finalBoard))"
      using lt by simp
    ultimately show ?thesis
      using True by (subst addEmptyLines.simps) (simp add: BOARD_WIDTH_def replicate_app_Cons_same)
  next
    case False
    with "1.prems" have "length finalBoard = 20" by (simp add: BOARD_HEIGHT_def)
    with False show ?thesis by (subst addEmptyLines.simps) simp
  qed
qed

lemma length_filter_split:
  "length (filter (\<lambda>x. \<not> P x) xs) = length xs - length (filter P xs)"
  using sum_length_filter_compl [of P xs] by simp

lemma clearRows_eq:
  assumes "length b = 20"
  shows "clearRows b =
     (replicate (length (filter (list_all (\<lambda>cell. cell \<noteq> Null)) b)) (replicate 10 Null)
        @ filter (\<lambda>row. \<not> list_all (\<lambda>cell. cell \<noteq> Null) row) b,
      int (length (filter (list_all (\<lambda>cell. cell \<noteq> Null)) b)))"
proof -
  let ?full = "list_all (\<lambda>cell. cell \<noteq> Null)"
  have le: "length (filter ?full b) \<le> 20"
    using assms length_filter_le [of ?full b] by simp
  have "length (filter (\<lambda>row. \<not> ?full row) b) = 20 - length (filter ?full b)"
    using assms by (simp add: length_filter_split)
  then show ?thesis
    using le by (simp add: clearRows_def filterRows_eq addEmptyLines_eq)
qed

lemma clearLines_loop_eq:
  "- 1 \<le> i \<Longrightarrow> i < int (length nb) \<Longrightarrow>
   clearLines_loop nb i n =
     Inr (replicate (length (filter (list_all (\<lambda>cell. cell \<noteq> Num 0)) (take (nat (i + 1)) nb)))
            (replicate 10 (Num 0))
          @ filter (\<lambda>row. \<not> list_all (\<lambda>cell. cell \<noteq> Num 0) row) (take (nat (i + 1)) nb)
          @ drop (nat (i + 1)) nb,
          n + int (length (filter (list_all (\<lambda>cell. cell \<noteq> Num 0)) (take (nat (i + 1)) nb))))"
proof (induction nb i n rule: clearLines_loop.induct)
  case (1 newBoard i linesCleared)
  let ?full = "list_all (\<lambda>cell. cell \<noteq> Num 0)"
  let ?e = "replicate 10 (Num 0)"
  show ?case
  proof (cases "i \<ge> 0")
    case False
    with "1.prems" have "i = - 1" by simp
    then show ?thesis by (subst clearLines_loop.simps) simp
  next
    case True
    then have idx: "jsIndex newBoard i = Some (newBoard ! nat i)"
      using "1.prems" by (simp add: jsIndex_def)
    have lt: "nat i < length newBoard" using True "1.prems" by simp
    have tk: "take (nat (i + 1)) newBoard = take (nat i) newBoard @ [newBoard ! nat i]"
      using True lt by (simp add: nat_add_distrib take_Suc_conv_app_nth)
    have dr: "drop (nat i) newBoard = newBoard ! nat i # drop (nat (i + 1)) newBoard"
      using True lt by (simp add: nat_add_distrib Cons_nth_drop_Suc)
    show ?thesis
    proof (cases "?full (newBoard ! nat i)")
      case False
      have "clearLines_loop newBoard (i - 1) linesCleared =
          Inr (replicate (length (filter ?full (take (nat i) newBoard))) ?e
                 @ filter (\<lambda>row. \<not> ?full row) (take (nat i) newBoard) @ drop (nat i) newBoard,
               linesCleared + int (length (filter ?full (take (nat i) newBoard))))"
        using "1.IH"(2) [OF True idx False] True "1.prems" by simp
      then show ?thesis
        using True idx False by (subst clearLines_loop.simps) (simp add: tk dr)
    next
      case full: True
      let ?nb = "replicate (nat BOARD_WIDTH) (Num 0)
                   # (take (nat i) newBoard @ drop (Suc (nat i)) newBoard)"
      have e: "replicate (nat BOARD_WIDTH) (Num 0) = ?e" by (simp add: BOARD_WIDTH_def)
      have ne: "\<not> ?full ?e" by (simp add: list_all_iff)
      have len: "length ?nb = length newBoard" using lt by simp
      have tk': "take (nat (i + 1)) ?nb = ?e # take (nat i) newBoard"
        using True lt by (simp add: nat_add_distrib e)
      have dr': "drop (nat (i + 1)) ?nb = drop (nat (i + 1)) newBoard"
        using True lt by (simp add: nat_add_distrib)
      have "clearLines_loop ?nb (i + 1 - 1) (linesCleared + 1) =
          Inr (replicate (length (filter ?full (take (nat (i + 1)) ?nb))) ?e
                 @ filter (\<lambda>row. \<not> ?full row) (take (nat (i + 1)) ?nb) @ drop (nat (i + 1)) ?nb,
               linesCleared + 1 + int (length (filter ?full (take (nat (i + 1)) ?nb))))"
        using "1.IH"(1) [OF True idx full] True "1.prems" len by simp
      then have "clearLines_loop ?nb (i + 1 - 1) (linesCleared + 1) =
          Inr (replicate (Suc (length (filter ?full (take (nat i) newBoard)))) ?e
                 @ filter (\<lambda>row. \<not> ?full row) (take (nat i) newBoard)
                 @ drop (nat (i + 1)) newBoard,
               linesCleared + 1 + int (length (filter ?full (take (nat i) newBoard))))"
        unfolding tk' dr' using ne by (simp add: replicate_app_Cons_same)
      then show ?thesis
        using True idx full by (subst clearLines_loop.simps) (simp add: tk)
    qed
  qed
qed

lemma clearLines_eq:
  "clearLines b =
     Inr (replicate (length (filter (list_all (\<lambda>cell. cell \<noteq> Num 0)) b)) (replicate 10 (Num 0))
            @ filter (\<lambda>row. \<not> list_all (\<lambda>cell. cell \<noteq> Num 0) row) b,
          int (length (filter (list_all (\<lambda>cell. cell \<noteq> Num 0)) b)))"
  unfolding clearLines_def by (subst clearLines_loop_eq) simp_all


text \<open>
  Claim C2.  On a board of 20 rows the clear step (\<open>clearRows\<close>: steps 2 and 3 of
  \<open>processBoardUpdate\<close>; \<open>clearLines\<close> in the script variant) removes exactly the rows whose
  cells are all non-empty, returns their number, and yields that many empty rows on top of
  the remaining rows in their order, 20 rows in all; with no full row the board comes back
  unchanged with count 0.
\<close>

theorem clear_step:
  assumes "length b = 20"
  shows
    "clearRows b =
       (replicate (length (filter (list_all (\<lambda>cell. cell \<noteq> Null)) b)) (replicate 10 Null)
          @ filter (\<lambda>row. \<not> list_all (\<lambda>cell. cell \<noteq> Null) row) b,
        int (length (filter (list_all (\<lambda>cell. cell \<noteq> Null)) b)))
     \<and> length (fst (clearRows b)) = 20
     \<and> ((\<forall>row\<in>set b. \<not> list_all (\<lambda>cell. cell \<noteq> Null) row) \<longrightarrow> clearRows b = (b, 0))
     \<and> clearLines b =
       Inr (replicate (length (filter (list_all (\<lambda>cell. cell \<noteq> Num 0)) b)) (replicate 10 (Num 0))
              @ filter (\<lambda>row. \<not> list_all (\<lambda>cell. cell \<noteq> Num 0) row) b,
            int (length (filter (list_all (\<lambda>cell. cell \<noteq> Num 0)) b)))
     \<and> (\<forall>b' n. clearLines b = Inr (b', n) \<longrightarrow> length b' = 20)
     \<and> ((\<forall>row\<in>set b. \<not> list_all (\<lambda>cell. cell \<noteq> Num 0) row) \<longrightarrow> clearLines b = Inr (b, 0))"
proof -
  have len: "length (filter P b) + length (filter (\<lambda>row. \<not> P row) b) = 20" for P
    using assms sum_length_filter_compl [of P b] by simp
  have none: "filter P b = [] \<and> filter (\<lambda>row. \<not> P row) b = b" if "\<forall>row\<in>set b. \<not> P row" for P
    using that by (simp add: filter_empty_conv filter_id_conv)
  have 1: "length (fst (clearRows b)) = 20"
    using len [of "list_all (\<lambda>cell. cell \<noteq> Null)"] by (simp add: clearRows_eq [OF assms])
  have 2: "clearRows b = (b, 0)" if "\<forall>row\<in>set b. \<not> list_all (\<lambda>cell. cell \<noteq> Null) row"
    using none [OF that] by (simp add: clearRows_eq [OF assms])
  have 3: "length b' = 20" if "clearLines b = Inr (b', n)" for b' n
    using that len [of "list_all (\<lambda>cell. cell \<noteq> Num 0)"] by (auto simp: clearLines_eq)
  have 4: "clearLines b = Inr (b, 0)" if "\<forall>row\<in>set b. \<not> list_all (\<lambda>cell. cell \<noteq> Num 0) row"
    using none [OF that] by (simp add: clearLines_eq)
  show ?thesis
    using clearRows_eq [OF assms] clearLines_eq [of b] 1 2 3 4 by blast
qed

theorem clear_step_witness:
  "length (replicate 19 (replicate 10 Null) @ [replicate 10 (Str ''bg-red-500'')]) = 20
   \<and> clearRows (replicate 19 (replicate 10 Null) @ [replicate 10 (Str ''bg-red-500'')])
       = (replicate 20 (replicate 10 Null), 1)
   \<and> clearRows (replicate 20 (replicate 10 Null)) = (replicate 20 (replicate 10 Null), 0)
   \<and> clearLines (replicate 19 (replicate 10 (Num 0)) @ [replicate 10 (Num 3)])
       = Inr (replicate 20 (replicate 10 (Num 0)), 1)
   \<and> clearLines (replicate 20 (replicate 10 (Num 0))) = Inr (replicate 20 (replicate 10 (Num 0)), 0)"
proof -
  have r: "x # replicate 19 x = replicate 20 x" for x :: "jsval list"
    by (simp add: numeral_eq_Suc)
  show ?thesis
    using clear_step [of "replicate 19 (replicate 10 Null) @ [replicate 10 (Str ''bg-red-500'')]"]
      clear_step [of "replicate 20 (replicate 10 Null)"]
      clear_step [of "replicate 19 (replicate 10 (Num 0)) @ [replicate 10 (Num 3)]"]
      clear_step [of "replicate 20 (replicate 10 (Num 0))"]
    by (simp add: list_all_iff replicate_append_same r)
qed

subsection \<open>Rotation of the catalogue shapes\<close>

text \<open>
  Claim C6.  On every shape of either catalogue (\<open>TETROMINOES\<close>, \<open>PIECES\<close>) the rotation
  function (\<open>rotateMatrix\<close>, \<open>rotatePiece\<close>) returns the transposed matrix with each row
  reversed, and four rotations in succession give the shape back.
\<close>

theorem rotation_catalogue:
  "(\<forall>k. rotateMatrix (fst (TETROMINOES k)) = Inr (map rev (transpose (fst (TETROMINOES k)))))
   \<and> (\<forall>k. repeatE 4 rotateMatrix (fst (TETROMINOES k)) = Inr (fst (TETROMINOES k)))
   \<and> list_all (\<lambda>p. rotatePiece p = Inr (map rev (transpose p))) PIECES
   \<and> list_all (\<lambda>p. repeatE 4 rotatePiece p = Inr p) PIECES"
proof -
  have "rotateMatrix (fst (TETROMINOES k)) = Inr (map rev (transpose (fst (TETROMINOES k))))" for k
    by (cases k) (simp_all add: rotateMatrix_def cellAt_def jsIndex_def upt_rec)
  moreover have "repeatE 4 rotateMatrix (fst (TETROMINOES k)) = Inr (fst (TETROMINOES k))" for k
    by (cases k) (simp_all add: numeral_eq_Suc rotateMatrix_def cellAt_def jsIndex_def upt_rec)
  moreover have "list_all (\<lambda>p. rotatePiece p = Inr (map rev (transpose p))) PIECES"
    by (simp add: PIECES_def rotatePiece_def writeCell_def jsIndex_def jsSet_def)
  moreover have "list_all (\<lambda>p. repeatE 4 rotatePiece p = Inr p) PIECES"
    by (simp add: PIECES_def numeral_eq_Suc rotatePiece_def writeCell_def jsIndex_def jsSet_def)
  ultimately show ?thesis by blast
qed

subsection \<open>Locking a piece into the board\<close>

lemma forEachFrom_invariant:
  assumes "I 0 s0"
    and "\<And>k s. k < length xs \<Longrightarrow> I k s \<Longrightarrow> \<exists>s'. body (i + int k) (xs ! k) s = Inr s' \<and> I (Suc k) s'"
  shows "\<exists>s'. forEachFrom i xs body s0 = Inr s' \<and> I (length xs) s'"
  using assms
proof (induction xs arbitrary: i s0 I)
  case Nil
  then show ?case by simp
next
  case (Cons a as)
  from Cons.prems(2) [of 0 s0] Cons.prems(1)
  obtain s1 where s1: "body i a s0 = Inr s1" "I (Suc 0) s1" by auto
  have "\<exists>s'. forEachFrom (i + 1) as body s1 = Inr s' \<and> (\<lambda>k. I (Suc k)) (length as) s'"
  proof (rule Cons.IH)
    show "I (Suc 0) s1" by (rule s1)
  next
    fix k s assume "k < length as" "I (Suc k) s"
    then show "\<exists>s'. body (i + 1 + int k) (as ! k) s = Inr s' \<and> I (Suc (Suc k)) s'"
      using Cons.prems(2) [of "Suc k" s] by (simp add: algebra_simps)
  qed
  then show ?case using s1 by simp
qed

lemma mergePiece_paintShape:
  "mergePiece p sh colr b = paintShape (\<lambda>c. c \<noteq> Num 0) (Str colr) p sh b"
  unfolding mergePiece_def paintShape_def Let_def by (rule refl)

lemma placePiece_paintShape:
  "placePiece b sh x y colr = paintShape truthy (Num (colr + 1)) (x, y) sh b"
  unfolding placePiece_def paintShape_def Let_def fst_conv snd_conv by (rule refl)

lemma painted_writeCell:
  assumes "painted C v b nb" "0 \<le> r" "r < BOARD_HEIGHT" "0 \<le> c" "c < BOARD_WIDTH"
  shows "\<exists>nb'. writeCell nb r c v = Inr nb'
           \<and> painted (\<lambda>r' c'. C r' c' \<or> (int r' = r \<and> int c' = c)) v b nb'"
proof -
  from assms have wf: "wellFormed nb" by (simp add: painted_def)
  then have len: "length nb = 20" and row: "\<And>k. k < 20 \<Longrightarrow> length (nb ! k) = 10"
    by (auto simp: wellFormed_def BOARD_HEIGHT_def BOARD_WIDTH_def list_all_length)
  have r: "nat r < 20" and c: "nat c < 10"
    using assms by (auto simp: BOARD_HEIGHT_def BOARD_WIDTH_def)
  have w: "writeCell nb r c v = Inr (nb[nat r := (nb ! nat r)[nat c := v]])"
    using assms(2-5) r c len row [of "nat r"]
    by (simp add: writeCell_def jsIndex_def jsSet_def BOARD_HEIGHT_def BOARD_WIDTH_def)
  have "wellFormed (nb[nat r := (nb ! nat r)[nat c := v]])"
    using len row r
    by (auto simp: wellFormed_def BOARD_HEIGHT_def BOARD_WIDTH_def list_all_length nth_list_update)
  moreover have "(nb[nat r := (nb ! nat r)[nat c := v]]) ! r' ! c'
      = (if C r' c' \<or> (int r' = r \<and> int c' = c) then v else b ! r' ! c')"
    if "r' < 20" "c' < 10" for r' c'
    using that assms(1,2,4) len row [of r'] r c
    by (auto simp: painted_def nth_list_update)
  ultimately show ?thesis
    using w by (simp add: painted_def)
qed

lemma painted_cong:
  "painted C v b nb \<Longrightarrow> (\<And>r c. r < 20 \<Longrightarrow> c < 10 \<Longrightarrow> C r c = C' r c) \<Longrightarrow> painted C' v b nb"
  by (simp add: painted_def)

lemma painted_row:
  assumes "painted C v b nb"
  shows "\<exists>nb'. forEachFrom 0 row (\<lambda>x cell nb.
             if occupied cell then
               (if snd p + y \<ge> 0 \<and> snd p + y < BOARD_HEIGHT
                     \<and> fst p + x \<ge> 0 \<and> fst p + x < BOARD_WIDTH
                then writeCell nb (snd p + y) (fst p + x) v
                else Inr nb)
             else Inr nb) nb = Inr nb'
           \<and> painted (\<lambda>r c. C r c \<or> (\<exists>col<length row. occupied (row ! col)
                  \<and> snd p + y = int r \<and> fst p + int col = int c)) v b nb'"
proof (rule forEachFrom_invariant [where I = "\<lambda>j nb'.
          painted (\<lambda>r c. C r c \<or> (\<exists>col<j. occupied (row ! col)
                  \<and> snd p + y = int r \<and> fst p + int col = int c)) v b nb'"], goal_cases)
  case 1
  show ?case using assms by simp
next
  case (2 k s)
  let ?C = "\<lambda>r c. C r c \<or> (\<exists>col<k. occupied (row ! col) \<and> snd p + y = int r \<and> fst p + int col = int c)"
  let ?C' = "\<lambda>r c. C r c \<or> (\<exists>col<Suc k. occupied (row ! col) \<and> snd p + y = int r \<and> fst p + int col = int c)"
  show ?case
  proof (cases "occupied (row ! k) \<and> snd p + y \<ge> 0 \<and> snd p + y < BOARD_HEIGHT
                  \<and> fst p + (0 + int k) \<ge> 0 \<and> fst p + (0 + int k) < BOARD_WIDTH")
    case True
    then obtain nb' where nb': "writeCell s (snd p + y) (fst p + (0 + int k)) v = Inr nb'"
      "painted (\<lambda>r' c'. ?C r' c' \<or> (int r' = snd p + y \<and> int c' = fst p + (0 + int k))) v b nb'"
      using painted_writeCell [OF 2(2), of "snd p + y" "fst p + (0 + int k)"] by auto
    have "painted ?C' v b nb'"
      by (rule painted_cong [OF nb'(2)]) (use True in \<open>auto simp: less_Suc_eq\<close>)
    then show ?thesis using True nb'(1) by simp
  next
    case False
    have "painted ?C' v b s"
      by (rule painted_cong [OF 2(2)])
        (use False in \<open>auto simp: less_Suc_eq BOARD_HEIGHT_def BOARD_WIDTH_def\<close>)
    then show ?thesis using False by auto
  qed
qed

lemma paintShape_painted:
  assumes "wellFormed b"
  shows "\<exists>nb. paintShape occupied v p sh b = Inr nb \<and> painted (covers occupied p sh) v b nb"
  unfolding paintShape_def
proof -
  let ?body = "\<lambda>y row. forEachFrom 0 row (\<lambda>x cell nb.
         if occupied cell then
           (if snd p + y \<ge> 0 \<and> snd p + y < BOARD_HEIGHT
                 \<and> fst p + x \<ge> 0 \<and> fst p + x < BOARD_WIDTH
            then writeCell nb (snd p + y) (fst p + x) v
            else Inr nb)
         else Inr nb)"
  let ?I = "\<lambda>k nb. painted (\<lambda>r c. \<exists>row<k. \<exists>col<length (sh ! row).
        occupied (sh ! row ! col) \<and> snd p + int row = int r \<and> fst p + int col = int c) v b nb"
  have "\<exists>nb. forEachFrom 0 sh ?body b = Inr nb \<and> ?I (length sh) nb"
  proof (rule forEachFrom_invariant [where I = ?I], goal_cases)
    case 1
    show ?case using assms by (simp add: painted_def)
  next
    case (2 k s)
    from painted_row [OF 2(2), of "sh ! k" occupied p "0 + int k"]
    obtain nb' where nb': "?body (0 + int k) (sh ! k) s = Inr nb'"
      "painted (\<lambda>r c. (\<exists>row<k. \<exists>col<length (sh ! row).
          occupied (sh ! row ! col) \<and> snd p + int row = int r \<and> fst p + int col = int c)
        \<or> (\<exists>col<length (sh ! k). occupied (sh ! k ! col)
              \<and> snd p + (0 + int k) = int r \<and> fst p + int col = int c)) v b nb'"
      by blast
    have "?I (Suc k) nb'"
      by (rule painted_cong [OF nb'(2)]) (auto simp: less_Suc_eq)
    then show ?case using nb'(1) by blast
  qed
  then show "\<exists>nb. forEachFrom 0 sh ?body b = Inr nb \<and> painted (covers occupied p sh) v b nb"
    by (simp add: covers_def [abs_def])
qed

lemma forEachFrom_sim:
  assumes "R s t"
    and "\<And>k s t. k < length xs \<Longrightarrow> R s t
           \<Longrightarrow> rel_sum (=) R (f (i + int k) (xs ! k) s) (g (i + int k) (xs ! k) t)"
  shows "rel_sum (=) R (forEachFrom i xs f s) (forEachFrom i xs g t)"
  using assms
proof (induction xs arbitrary: i s t)
  case Nil
  then show ?case by simp
next
  case (Cons a as)
  have head: "rel_sum (=) R (f i a s) (g i a t)"
    using Cons.prems(2) [of 0 s t] Cons.prems(1) by simp
  show ?case
  proof (cases "f i a s")
    case (Inl e)
    with head show ?thesis by (cases "g i a t") auto
  next
    case (Inr s1)
    with head obtain t1 where t1: "g i a t = Inr t1" "R s1 t1"
      by (cases "g i a t") auto
    have "rel_sum (=) R (forEachFrom (i + 1) as f s1) (forEachFrom (i + 1) as g t1)"
    proof (rule Cons.IH [OF t1(2)])
      fix k s t assume "k < length as" "R s t"
      then show "rel_sum (=) R (f (i + 1 + int k) (as ! k) s) (g (i + 1 + int k) (as ! k) t)"
        using Cons.prems(2) [of "Suc k" s t] by (simp add: algebra_simps)
    qed
    then show ?thesis using Inr t1(1) by simp
  qed
qed

lemma writeCellAt_sim:
  assumes "distinct ref" "\<forall>a\<in>set ref. a < length st" "holds st ref st' nb"
  shows "rel_sum (=) (holds st ref) (writeCellAt st' ref r c v) (writeCell nb r c v)"
proof (cases "0 \<le> r \<and> r < int (length ref)")
  case False
  then show ?thesis
    using assms(3) by (auto simp: writeCellAt_def writeCell_def jsIndex_def holds_def deref_def)
next
  case True
  let ?a = "ref ! nat r"
  let ?X = "jsSet (st' ! ?a) c v"
  have r: "nat r < length ref" using True by (auto simp: nat_less_iff)
  have len: "length st' = length st" and nb: "nb = map (\<lambda>a. st' ! a) ref"
    using assms(3) by (auto simp: holds_def deref_def)
  have a: "?a < length st'" using assms(2) r len by simp
  have "map (\<lambda>a. st'[?a := ?X] ! a) ref = (map (\<lambda>a. st' ! a) ref)[nat r := ?X]"
  proof (rule nth_equalityI)
    show "length (map (\<lambda>a. st'[?a := ?X] ! a) ref) = length ((map (\<lambda>a. st' ! a) ref)[nat r := ?X])"
      by simp
  next
    fix k assume "k < length (map (\<lambda>a. st'[?a := ?X] ! a) ref)"
    then have k: "k < length ref" by simp
    have "(ref ! k = ?a) = (k = nat r)"
      using assms(1) k r by (simp add: nth_eq_iff_index_eq)
    then show "map (\<lambda>a. st'[?a := ?X] ! a) ref ! k = (map (\<lambda>a. st' ! a) ref)[nat r := ?X] ! k"
      using k r a by (auto simp: nth_list_update)
  qed
  moreover have "st'[?a := ?X] ! a' = st ! a'" if "a' < length st" "a' \<notin> set ref" for a'
  proof -
    have "a' \<noteq> ?a" using that(2) r by auto
    then show ?thesis using assms(3) that by (simp add: holds_def)
  qed
  ultimately have "holds st ref (st'[?a := ?X]) (nb[nat r := jsSet (nb ! nat r) c v])"
    using len r nb by (simp add: holds_def deref_def)
  then show ?thesis
    using True r nb by (simp add: writeCellAt_def writeCell_def jsIndex_def)
qed

lemma paintShape_store_sim:
  assumes "distinct ref" "\<forall>a\<in>set ref. a < length st"
  shows "rel_sum (=) (holds st ref)
           (paintShape_store occupied v p sh ref st) (paintShape occupied v p sh (deref st ref))"
  unfolding paintShape_store_def paintShape_def
proof (rule forEachFrom_sim, goal_cases)
  case 1
  show ?case by (simp add: holds_def)
next
  case (2 k s t)
  show ?case
  proof (rule forEachFrom_sim [where R = "holds st ref"], goal_cases)
    case 1
    show ?case by (rule 2(2))
  next
    case (2 j s' t')
    then show ?case
      using writeCellAt_sim [OF assms, of s' t'] by auto
  qed
qed


lemma copyRows_facts:
  assumes "\<forall>a\<in>set ref. a < length st" "copyRows st ref = (st1, nb)"
  shows "distinct nb" "\<forall>a\<in>set nb. a < length st1" "\<forall>a\<in>set nb. length st \<le> a"
    "deref st1 nb = deref st ref" "\<forall>a<length st. st1 ! a = st ! a" "length st \<le> length st1"
proof -
  from assms(2) have st1: "st1 = st @ map (\<lambda>a. st ! a) ref"
    and nb: "nb = [length st..<length st + length ref]"
    by (auto simp: copyRows_def)
  show "distinct nb" "\<forall>a\<in>set nb. a < length st1" "\<forall>a\<in>set nb. length st \<le> a"
    "\<forall>a<length st. st1 ! a = st ! a" "length st \<le> length st1"
    by (auto simp: st1 nb nth_append)
  show "deref st1 nb = deref st ref"
    by (rule nth_equalityI) (auto simp: st1 nb deref_def nth_append)
qed

lemma paintShape_store_frame:
  assumes wf: "wellFormed (deref st ref)" and valid: "\<forall>a\<in>set ref. a < length st"
    and copy: "copyRows st ref = (st1, nb)"
  shows "\<exists>st'. paintShape_store occupied v p sh nb st1 = Inr st'
           \<and> (\<forall>a<length st. st' ! a = st ! a)
           \<and> deref st' ref = deref st ref
           \<and> (\<forall>a\<in>set nb. length st \<le> a)
           \<and> paintShape occupied v p sh (deref st ref) = Inr (deref st' nb)
           \<and> painted (covers occupied p sh) v (deref st ref) (deref st' nb)"
proof -
  note c = copyRows_facts [OF valid copy]
  obtain b' where b': "paintShape occupied v p sh (deref st ref) = Inr b'"
    "painted (covers occupied p sh) v (deref st ref) b'"
    using paintShape_painted [OF wf] by blast
  have "rel_sum (=) (holds st1 nb)
          (paintShape_store occupied v p sh nb st1) (paintShape occupied v p sh (deref st1 nb))"
    by (rule paintShape_store_sim [OF c(1,2)])
  then obtain st' where st': "paintShape_store occupied v p sh nb st1 = Inr st'" "holds st1 nb st' b'"
    using b'(1) c(4) by (cases "paintShape_store occupied v p sh nb st1") auto
  have "st' ! a = st ! a" if "a < length st" for a
  proof -
    have "a \<notin> set nb" using c(3) that by auto
    moreover have "a < length st1" using c(6) that by simp
    ultimately have "st' ! a = st1 ! a" using st'(2) by (simp add: holds_def)
    then show ?thesis using c(5) that by simp
  qed
  moreover have "deref st' nb = b'" using st'(2) by (simp add: holds_def)
  moreover have "deref st' ref = deref st ref"
    using calculation(1) valid by (simp add: deref_def)
  ultimately show ?thesis using st'(1) b' c(3) by simp
qed

lemma mergePiece_store_paint:
  "mergePiece_store p sh colr st ref =
     (case paintShape_store (\<lambda>c. c \<noteq> Num 0) (Str colr) p sh (snd (copyRows st ref))
             (fst (copyRows st ref)) of
        Inl e \<Rightarrow> Inl e
      | Inr st2 \<Rightarrow> Inr (st2, snd (copyRows st ref)))"
  unfolding mergePiece_store_def paintShape_store_def Let_def case_prod_beta by (rule refl)

lemma placePiece_store_paint:
  "placePiece_store st ref sh x y colr =
     (case paintShape_store truthy (Num (colr + 1)) (x, y) sh (snd (copyRows st ref))
             (fst (copyRows st ref)) of
        Inl e \<Rightarrow> Inl e
      | Inr st2 \<Rightarrow> Inr (st2, snd (copyRows st ref)))"
  unfolding placePiece_store_def paintShape_store_def Let_def case_prod_beta fst_conv snd_conv
  by (rule refl)

text \<open>
  Claim C10.  Locking a piece into a well-formed board (\<open>mergePiece\<close>: step 1 of \<open>lockPiece\<close>;
  \<open>placePiece\<close> in the script variant) returns a board in which every cell that no in-bounds
  occupied cell of the piece lies on keeps its value and the other cells hold the piece's
  colour token.  On the store: the returned board consists of freshly allocated rows, and
  every row object that existed before, those of the input board among them, is unmodified.
\<close>

theorem lock_frame:
  assumes "wellFormed (deref st ref)" and "\<forall>a\<in>set ref. a < length st"
  shows
    "(\<exists>st' nb. mergePiece_store p sh colr st ref = Inr (st', nb)
        \<and> (\<forall>a<length st. st' ! a = st ! a)
        \<and> deref st' ref = deref st ref
        \<and> (\<forall>a\<in>set nb. length st \<le> a)
        \<and> mergePiece p sh colr (deref st ref) = Inr (deref st' nb)
        \<and> wellFormed (deref st' nb)
        \<and> (\<forall>r<20. \<forall>c<10. deref st' nb ! r ! c =
              (if covers (\<lambda>cell. cell \<noteq> Num 0) p sh r c then Str colr else deref st ref ! r ! c)))
     \<and> (\<exists>st' nb. placePiece_store st ref piece x y n = Inr (st', nb)
        \<and> (\<forall>a<length st. st' ! a = st ! a)
        \<and> deref st' ref = deref st ref
        \<and> (\<forall>a\<in>set nb. length st \<le> a)
        \<and> placePiece (deref st ref) piece x y n = Inr (deref st' nb)
        \<and> wellFormed (deref st' nb)
        \<and> (\<forall>r<20. \<forall>c<10. deref st' nb ! r ! c =
              (if covers truthy (x, y) piece r c then Num (n + 1) else deref st ref ! r ! c)))"
proof -
  obtain st1 nb where copy: "copyRows st ref = (st1, nb)" by (cases "copyRows st ref")
  from paintShape_store_frame [OF assms copy, of "\<lambda>cell. cell \<noteq> Num 0" "Str colr" p sh]
  have 1: "\<exists>st' nb. mergePiece_store p sh colr st ref = Inr (st', nb)
        \<and> (\<forall>a<length st. st' ! a = st ! a)
        \<and> deref st' ref = deref st ref
        \<and> (\<forall>a\<in>set nb. length st \<le> a)
        \<and> mergePiece p sh colr (deref st ref) = Inr (deref st' nb)
        \<and> wellFormed (deref st' nb)
        \<and> (\<forall>r<20. \<forall>c<10. deref st' nb ! r ! c =
              (if covers (\<lambda>cell. cell \<noteq> Num 0) p sh r c then Str colr else deref st ref ! r ! c))"
    by (auto simp: mergePiece_store_paint mergePiece_paintShape copy painted_def)
  from paintShape_store_frame [OF assms copy, of truthy "Num (n + 1)" "(x, y)" piece]
  have 2: "\<exists>st' nb. placePiece_store st ref piece x y n = Inr (st', nb)
        \<and> (\<forall>a<length st. st' ! a = st ! a)
        \<and> deref st' ref = deref st ref
        \<and> (\<forall>a\<in>set nb. length st \<le> a)
        \<and> placePiece (deref st ref) piece x y n = Inr (deref st' nb)
        \<and> wellFormed (deref st' nb)
        \<and> (\<forall>r<20. \<forall>c<10. deref st' nb ! r ! c =
              (if covers truthy (x, y) piece r c then Num (n + 1) else deref st ref ! r ! c))"
    by (auto simp: placePiece_store_paint placePiece_paintShape copy painted_def)
  from 1 2 show ?thesis by (rule conjI)
qed


theorem lock_frame_witness:
  "wellFormed (deref createEmptyBoard [0..<20])
   \<and> (\<exists>st' nb.
         mergePiece_store (4, 18) (fst (TETROMINOES TypeO)) ''bg-yellow-400''
           createEmptyBoard [0..<20] = Inr (st', nb)
         \<and> deref st' [0..<20] = createEmptyBoard
         \<and> deref st' nb ! 19 ! 4 = Str ''bg-yellow-400''
         \<and> deref st' nb ! 0 ! 0 = Null)
   \<and> (\<exists>st' nb.
         placePiece_store createEmptyBoard [0..<20] (PIECES ! 1) 4 18 1 = Inr (st', nb)
         \<and> deref st' [0..<20] = createEmptyBoard
         \<and> deref st' nb ! 19 ! 4 = Num 2
         \<and> deref st' nb ! 0 ! 0 = Null)"
proof -
  have len: "length createEmptyBoard = 20"
    by (simp add: createEmptyBoard_def BOARD_HEIGHT_def)
  have d: "deref createEmptyBoard [0..<20] = createEmptyBoard"
    using map_nth [of createEmptyBoard] by (simp add: deref_def len)
  have wf: "wellFormed (deref createEmptyBoard [0..<20])"
    unfolding d by (rule wellFormed_createEmptyBoard)
  have valid: "\<forall>a\<in>set [0..<20]. a < length createEmptyBoard"
    by (simp add: len)
  have c1: "covers (\<lambda>cell. cell \<noteq> Num 0) (4, 18) (fst (TETROMINOES TypeO)) 19 4"
    "\<not> covers (\<lambda>cell. cell \<noteq> Num 0) (4, 18) (fst (TETROMINOES TypeO)) 0 0"
    "covers truthy (4, 18) (PIECES ! 1) 19 4"
    "\<not> covers truthy (4, 18) (PIECES ! 1) 0 0"
    by (simp_all add: covers_def PIECES_def numeral_eq_Suc Ex_less_Suc)
  have e: "createEmptyBoard ! 0 ! 0 = Null"
    by (simp add: createEmptyBoard_def BOARD_HEIGHT_def BOARD_WIDTH_def)
  note inst = lock_frame [OF wf valid, where p = "(4, 18)" and sh = "fst (TETROMINOES TypeO)"
        and colr = "''bg-yellow-400''" and piece = "PIECES ! 1" and x = 4 and y = 18 and n = 1]
  from inst obtain st' nb where l:
    "mergePiece_store (4, 18) (fst (TETROMINOES TypeO)) ''bg-yellow-400''
       createEmptyBoard [0..<20] = Inr (st', nb)"
    "deref st' [0..<20] = createEmptyBoard"
    "\<forall>r<20. \<forall>c<10. deref st' nb ! r ! c =
       (if covers (\<lambda>cell. cell \<noteq> Num 0) (4, 18) (fst (TETROMINOES TypeO)) r c
        then Str ''bg-yellow-400'' else createEmptyBoard ! r ! c)"
    unfolding d by blast
  from inst obtain st'' nb'' where q:
    "placePiece_store createEmptyBoard [0..<20] (PIECES ! 1) 4 18 1 = Inr (st'', nb'')"
    "deref st'' [0..<20] = createEmptyBoard"
    "\<forall>r<20. \<forall>c<10. deref st'' nb'' ! r ! c =
       (if covers truthy (4, 18) (PIECES ! 1) r c then Num (1 + 1) else createEmptyBoard ! r ! c)"
    unfolding d by blast
  have "deref st' nb ! 19 ! 4 = Str ''bg-yellow-400''" "deref st' nb ! 0 ! 0 = Null"
    using l(3) [rule_format, of 19 4] l(3) [rule_format, of 0 0] c1 e by simp_all
  moreover have "deref st'' nb'' ! 19 ! 4 = Num 2" "deref st'' nb'' ! 0 ! 0 = Null"
    using q(3) [rule_format, of 19 4] q(3) [rule_format, of 0 0] c1 e by simp_all
  ultimately show ?thesis
    using l(1,2) q(1,2) wf by blast
qed

subsection \<open>The row-count invariant\<close>

lemma wellFormed_length: "wellFormed b \<Longrightarrow> length b = 20"
  by (simp add: wellFormed_def BOARD_HEIGHT_def)

lemma wellFormed_cleared:
  assumes "wellFormed b"
  shows "wellFormed (replicate (length (filter full b)) (replicate 10 v)
                       @ filter (\<lambda>row. \<not> full row) b)"
proof -
  have "length (filter full b) + length (filter (\<lambda>row. \<not> full row) b) = 20"
    using wellFormed_length [OF assms] sum_length_filter_compl [of full b] by simp
  then show ?thesis
    using assms
    by (auto simp: wellFormed_def BOARD_HEIGHT_def BOARD_WIDTH_def list_all_iff)
qed

lemma wellFormed_clearRows:
  assumes "wellFormed b"
  shows "wellFormed (fst (clearRows b))"
  unfolding clearRows_eq [OF wellFormed_length [OF assms]] fst_conv
  using assms by (rule wellFormed_cleared)

lemma wellFormed_clearLines:
  assumes "wellFormed b" "clearLines b = Inr (nb, k)"
  shows "wellFormed nb"
proof -
  have "nb = replicate (length (filter (list_all (\<lambda>cell. cell \<noteq> Num 0)) b)) (replicate 10 (Num 0))
              @ filter (\<lambda>row. \<not> list_all (\<lambda>cell. cell \<noteq> Num 0) row) b"
    using assms(2) unfolding clearLines_eq by simp
  then show ?thesis
    using wellFormed_cleared [OF assms(1)] by simp
qed

lemma mergePiece_wellFormed:
  assumes "wellFormed b"
  shows "\<exists>nb. mergePiece p sh colr b = Inr nb \<and> wellFormed nb"
  using paintShape_painted [OF assms, of "\<lambda>c. c \<noteq> Num 0" "Str colr" p sh]
  by (auto simp: mergePiece_paintShape painted_def)

lemma placePiece_wellFormed:
  assumes "wellFormed b"
  shows "\<exists>nb. placePiece b sh x y colr = Inr nb \<and> wellFormed nb"
  using paintShape_painted [OF assms, of truthy "Num (colr + 1)" "(x, y)" sh]
  by (auto simp: placePiece_paintShape painted_def)

lemma spawnNext_board:
  "spawnNext fb rnd s = Inr s' \<Longrightarrow> TetrisGame.board s' = TetrisGame.board s"
  by (auto simp: spawnNext_def Let_def split: list.splits sum.splits if_splits)

lemma processBoardUpdate_board:
  "processBoardUpdate nb rnd s = Inr s' \<Longrightarrow> TetrisGame.board s' = fst (clearRows nb)"
  by (auto simp: processBoardUpdate_def split: prod.splits dest: spawnNext_board)

lemma lockPiece_wellFormed:
  assumes "wellFormed (TetrisGame.board s)" "lockPiece rnd s = Inr s'"
  shows "wellFormed (TetrisGame.board s')"
proof -
  obtain nb where nb: "mergePiece (pos (TetrisGame.currentPiece s)) (shape (TetrisGame.currentPiece s))
      (color (TetrisGame.currentPiece s)) (TetrisGame.board s) = Inr nb" "wellFormed nb"
    using mergePiece_wellFormed [OF assms(1)] by blast
  with assms(2) have "processBoardUpdate nb rnd s = Inr s'"
    by (simp add: lockPiece_def)
  then show ?thesis
    using nb(2) by (simp add: processBoardUpdate_board wellFormed_clearRows)
qed

lemma drop_wellFormed:
  assumes "wellFormed (TetrisGame.board s)" "drop' rnd s = Inr s'"
  shows "wellFormed (TetrisGame.board s')"
  using assms
  by (auto simp: drop'_def Let_def split: if_splits sum.splits dest: lockPiece_wellFormed)

lemma move_wellFormed:
  assumes "wellFormed (TetrisGame.board s)" "move dx dy s = Inr (moved, s')"
  shows "wellFormed (TetrisGame.board s')"
  using assms by (auto simp: move_def Let_def split: if_splits sum.splits)

lemma rotate_wellFormed:
  assumes "wellFormed (TetrisGame.board s)" "rotate' s = Inr s'"
  shows "wellFormed (TetrisGame.board s')"
  using assms by (auto simp: rotate'_def Let_def split: if_splits sum.splits)

lemma hardDrop_wellFormed:
  assumes "wellFormed (TetrisGame.board s)" "hardDrop rnd s = Some (Inr s')"
  shows "wellFormed (TetrisGame.board s')"
proof (cases "TetrisGame.gameOver s \<or> TetrisGame.isPaused s \<or> \<not> gameStarted s")
  case True
  with assms show ?thesis by (simp add: hardDrop_def)
next
  case False
  let ?cp = "TetrisGame.currentPiece s"
  from assms(2) False obtain currentY finalY lockedBoard where
    m: "mergePiece (fst (pos ?cp), finalY) (shape ?cp) (color ?cp) (TetrisGame.board s) = Inr lockedBoard"
    and p: "processBoardUpdate lockedBoard rnd
              (s\<lparr>TetrisGame.currentPiece := ?cp\<lparr>pos := (fst (pos ?cp), currentY)\<rparr>\<rparr>) = Inr s'"
    by (auto simp: hardDrop_def Let_def split: option.splits sum.splits)
  from mergePiece_wellFormed [OF assms(1), of "(fst (pos ?cp), finalY)" "shape ?cp" "color ?cp"] m
  have "wellFormed lockedBoard" by simp
  then show ?thesis
    using p by (simp add: processBoardUpdate_board wellFormed_clearRows)
qed

lemma handleKeyPress_wellFormed:
  assumes "wellFormed (TetrisGame.board s)" "handleKeyPress key rnd s = Some (Inr s')"
  shows "wellFormed (TetrisGame.board s')"
proof (cases "TetrisGame.gameOver s \<or> \<not> gameStarted s \<or> TetrisGame.isPaused s")
  case True
  with assms show ?thesis by (auto simp: handleKeyPress_def split: if_splits)
next
  case False
  show ?thesis
  proof (cases key)
    case ArrowLeft
    with assms False show ?thesis
      by (cases "move (- 1) 0 s") (auto simp: handleKeyPress_def dest: move_wellFormed)
  next
    case ArrowRight
    with assms False show ?thesis
      by (cases "move 1 0 s") (auto simp: handleKeyPress_def dest: move_wellFormed)
  next
    case ArrowDown
    with assms False show ?thesis
      by (cases "drop' rnd s") (auto simp: handleKeyPress_def dest: drop_wellFormed)
  next
    case ArrowUp
    with assms False show ?thesis
      by (auto simp: handleKeyPress_def dest: rotate_wellFormed)
  next
    case Space
    with assms False show ?thesis
      by (auto simp: handleKeyPress_def dest: hardDrop_wellFormed)
  next
    case KeyP
    with assms False show ?thesis by (auto simp: handleKeyPress_def)
  next
    case OtherKey
    with assms False show ?thesis by (auto simp: handleKeyPress_def)
  qed
qed

lemma handleEvent_wellFormed:
  assumes "wellFormed (TetrisGame.board s)" "handleEvent ev s = Some (Inr s')"
  shows "wellFormed (TetrisGame.board s')"
proof (cases ev)
  case (ClickMove dx dy)
  with assms show ?thesis
    by (cases "move dx dy s") (auto dest: move_wellFormed)
qed (use assms in \<open>auto simp: startGame_def wellFormed_createEmptyBoard
      dest: drop_wellFormed handleKeyPress_wellFormed rotate_wellFormed hardDrop_wellFormed\<close>)

lemma reachable_wellFormed: "reachable s \<Longrightarrow> wellFormed (TetrisGame.board s)"
proof (induction rule: reachable.induct)
  case (reachable_init k1 k2)
  show ?case by (simp add: initialState_def wellFormed_createEmptyBoard)
next
  case (reachable_step s ev s')
  then show ?case by (blast intro: handleEvent_wellFormed)
qed

lemma moveDown_wellFormed:
  assumes "wellFormed (GameState.board s)" "moveDown r1 r2 s = Inr s'"
  shows "wellFormed (GameState.board s')"
proof -
  obtain placed where placed: "placePiece (GameState.board s) (GameState.currentPiece s)
      (fst (position s)) (snd (position s)) (currentColor s) = Inr placed" "wellFormed placed"
    using placePiece_wellFormed [OF assms(1)] by blast
  obtain nb k where c: "clearLines placed = Inr (nb, k)"
    by (simp add: clearLines_eq)
  have "wellFormed nb" using placed(2) c by (rule wellFormed_clearLines)
  then show ?thesis
    using assms placed(1) c
    by (auto simp: moveDown_def Let_def split: if_splits sum.splits)
qed

lemma handleKeyDown_wellFormed:
  assumes "wellFormed (GameState.board s)" "handleKeyDown key r1 r2 s = Inr s'"
  shows "wellFormed (GameState.board s')"
  using assms
  by (cases key)
    (auto simp: handleKeyDown_def Let_def split: if_splits sum.splits dest: moveDown_wellFormed)

lemma reachableScript_wellFormed: "reachableScript s \<Longrightarrow> wellFormed (GameState.board s)"
proof (induction rule: reachableScript.induct)
  case (reachableScript_init r1 r2)
  show ?case by (simp add: initialGameState_def wellFormed_createEmptyBoard_script)
next
  case (reachableScript_step s ev s')
  then show ?case
    by (cases ev)
      (auto simp: resetGame_def initialGameState_def wellFormed_createEmptyBoard_script
        dest: moveDown_wellFormed handleKeyDown_wellFormed)
qed

text \<open>
  Claim C7.  In every state reachable from the initial session by any sequence of events
  (the interval's ticks, keys and buttons: moves, rotations, soft and hard drops with their
  locks, clears and spawns, pause, start and reset), the board has exactly 20 rows; this
  holds in both variants.  The reachable boards are in fact well-formed
  (\<open>reachable_wellFormed\<close>, \<open>reachableScript_wellFormed\<close>).
\<close>

theorem row_count_invariant:
  "(reachable s \<longrightarrow> length (TetrisGame.board s) = 20)
   \<and> (reachableScript t \<longrightarrow> length (GameState.board t) = 20)"
  using reachable_wellFormed [of s] reachableScript_wellFormed [of t]
  by (auto dest: wellFormed_length)


theorem row_count_invariant_witness:
  "reachable ((startGame TypeO TypeT (initialState TypeI TypeJ))
       \<lparr>TetrisGame.board := createEmptyBoard
            [18 := (replicate 10 Null)[4 := Str ''bg-yellow-400'', 5 := Str ''bg-yellow-400''],
             19 := (replicate 10 Null)[4 := Str ''bg-yellow-400'', 5 := Str ''bg-yellow-400'']],
        TetrisGame.currentPiece := withPos (randomTetromino TypeT) (4, 0),
        TetrisGame.nextPiece := randomTetromino TypeI\<rparr>)
   \<and> length (TetrisGame.board ((startGame TypeO TypeT (initialState TypeI TypeJ))
       \<lparr>TetrisGame.board := createEmptyBoard
            [18 := (replicate 10 Null)[4 := Str ''bg-yellow-400'', 5 := Str ''bg-yellow-400''],
             19 := (replicate 10 Null)[4 := Str ''bg-yellow-400'', 5 := Str ''bg-yellow-400'']],
        TetrisGame.currentPiece := withPos (randomTetromino TypeT) (4, 0),
        TetrisGame.nextPiece := randomTetromino TypeI\<rparr>)) = 20
   \<and> reachableScript ((initialGameState 1 0)\<lparr>position := (3, 1)\<rparr>)
   \<and> length (GameState.board ((initialGameState 1 0)\<lparr>position := (3, 1)\<rparr>)) = 20"
proof -
  let ?s1 = "startGame TypeO TypeT (initialState TypeI TypeJ)"
  let ?s2 = "?s1\<lparr>TetrisGame.board := createEmptyBoard
            [18 := (replicate 10 Null)[4 := Str ''bg-yellow-400'', 5 := Str ''bg-yellow-400''],
             19 := (replicate 10 Null)[4 := Str ''bg-yellow-400'', 5 := Str ''bg-yellow-400'']],
        TetrisGame.currentPiece := withPos (randomTetromino TypeT) (4, 0),
        TetrisGame.nextPiece := randomTetromino TypeI\<rparr>"
  let ?t2 = "(initialGameState 1 0)\<lparr>position := (3, 1)\<rparr>"
  have "reachable ?s1"
    by (rule reachable_step [OF reachable_init, where ev = "ClickStart TypeO TypeT"]) simp
  moreover have "handleEvent (ClickHardDrop TypeI) ?s1 = Some (Inr ?s2)"
    by (simp add: hardDrop_def startGame_def initialState_def withPos_def randomTetromino_def
      hardDrop_currentY.simps hardDrop_finalY.simps checkCollision_def
      createEmptyBoard_def BOARD_WIDTH_def BOARD_HEIGHT_def jsIndex_def cellAt_def
      mergePiece_def writeCell_def jsSet_def processBoardUpdate_def clearRows_def
      addEmptyLines.simps updateStats_def spawnNext_def Let_def
      nth_list_update list_update_code numeral_eq_Suc)
  ultimately have s2: "reachable ?s2" by (rule reachable_step)
  have "reachableScript (initialGameState 1 0)"
    by (rule reachableScript_init) (simp_all add: PIECES_def)
  moreover have "drawsInRange (ScriptTick 0 0)" by (simp add: PIECES_def)
  moreover have "handleScriptEvent (ScriptTick 0 0) (initialGameState 1 0) = Inr ?t2"
    by (simp add: moveDown_def initialGameState_def getRandomPiece_def PIECES_def canMove_def
      createEmptyBoard_script_def BOARD_WIDTH_def BOARD_HEIGHT_def jsIndex_def cellAt_def Let_def)
  ultimately have t2: "reachableScript ?t2" by (rule reachableScript_step)
  show ?thesis
    using row_count_invariant [of ?s2 ?t2] s2 t2 by blast
qed

subsection \<open>Hard drop and ghost\<close>












subsection \<open>Scoring\<close>

lemma checkCollision_Inr:
  "wellFormed b \<Longrightarrow> \<exists>c. checkCollision p sh b = Inr c"
  by (simp add: checkCollision_hits)

lemma canMove_Inr:
  "wellFormed b \<Longrightarrow> \<exists>c. canMove b sh x y = Inr c"
  by (simp add: canMove_hits)

lemma snd_clearRows:
  "wellFormed nb \<Longrightarrow> snd (clearRows nb) = int (length (filter (list_all (\<lambda>cell. cell \<noteq> Null)) nb))"
  by (simp add: clearRows_eq wellFormed_length)

lemma bitLength_le:
  "a < 2 ^ n \<Longrightarrow> bitLength a \<le> n"
proof (induction n arbitrary: a)
  case 0
  then show ?case by (subst bitLength.simps) simp
next
  case (Suc n)
  show ?case
  proof (cases "a \<le> 0")
    case True
    then show ?thesis by (subst bitLength.simps) simp
  next
    case False
    have "a div 2 < 2 ^ n" using Suc.prems by simp
    then have "bitLength (a div 2) \<le> n" by (rule Suc.IH)
    then show ?thesis using False by (subst bitLength.simps) simp
  qed
qed

lemma roundToEven_exact:
  assumes "a < 2 ^ 53"
  shows "roundToEven a = a"
proof -
  have "bitLength a - 53 = 0" using bitLength_le [OF assms] by simp
  then show ?thesis by (simp add: roundToEven_def)
qed

lemma toNumber_safe:
  assumes "safeInteger k"
  shows "toNumber k = Number k"
proof -
  have small: "\<bar>k\<bar> < 2 ^ 53" using assms by (simp add: safeInteger_def)
  have "(2::int) ^ 53 \<le> 2 ^ 1024" by (rule power_increasing) simp_all
  then have "\<not> \<bar>k\<bar> \<ge> 2 ^ 1024" using small by linarith
  then show ?thesis
    unfolding toNumber_def roundToEven_exact [OF small] Let_def by auto
qed

lemma updateStats_score:
  assumes "k \<le> 4" "TetrisGame.score s = Number n"
    "safeInteger ([0, 100, 300, 500, 800] ! k * TetrisGame.level s)"
    "safeInteger (n + [0, 100, 300, 500, 800] ! k * TetrisGame.level s)"
  shows "TetrisGame.score (updateStats (int k) s)
           = Number (n + [0, 100, 300, 500, 800] ! k * TetrisGame.level s)"
proof -
  have "k = 0 \<or> k = 1 \<or> k = 2 \<or> k = 3 \<or> k = 4" using assms(1) by auto
  then show ?thesis
    using assms(2-4)
    by (auto simp: updateStats_def scoreMultipliers_def jsIndex_def toNumber_safe)
qed

lemma spawnNext_score:
  "spawnNext fb rnd s = Inr s' \<Longrightarrow> TetrisGame.score s' = TetrisGame.score s"
  by (auto simp: spawnNext_def Let_def split: list.splits sum.splits if_splits)

lemma spawnNext_Inr:
  assumes "wellFormed fb" "shape (TetrisGame.nextPiece s) \<noteq> []"
  shows "\<exists>s'. spawnNext fb rnd s = Inr s'"
proof -
  obtain row0 rest where sh: "shape (TetrisGame.nextPiece s) = row0 # rest"
    using assms(2) by (cases "shape (TetrisGame.nextPiece s)") auto
  obtain c where "checkCollision (BOARD_WIDTH div 2 - int (length row0) div 2, 0)
      (shape (TetrisGame.nextPiece s)) fb = Inr c"
    using checkCollision_Inr [OF assms(1)] by blast
  then show ?thesis
    by (simp add: spawnNext_def sh Let_def withPos_def)
qed

lemma processBoardUpdate_score:
  assumes "wellFormed nb" "shape (TetrisGame.nextPiece s) \<noteq> []"
    "length (filter (list_all (\<lambda>cell. cell \<noteq> Null)) nb) = k" "k \<le> 4"
    "TetrisGame.score s = Number n"
    "safeInteger ([0, 100, 300, 500, 800] ! k * TetrisGame.level s)"
    "safeInteger (n + [0, 100, 300, 500, 800] ! k * TetrisGame.level s)"
  shows "\<exists>s'. processBoardUpdate nb rnd s = Inr s'
           \<and> TetrisGame.score s' = Number (n + [0, 100, 300, 500, 800] ! k * TetrisGame.level s)"
proof -
  let ?fb = "fst (clearRows nb)"
  let ?s1 = "(updateStats (snd (clearRows nb)) s)\<lparr>TetrisGame.board := ?fb\<rparr>"
  have eq: "processBoardUpdate nb rnd s = spawnNext ?fb rnd ?s1"
    by (simp add: processBoardUpdate_def split: prod.splits)
  have "shape (TetrisGame.nextPiece ?s1) \<noteq> []"
    using assms(2) by (simp add: updateStats_def)
  then obtain s' where s': "spawnNext ?fb rnd ?s1 = Inr s'"
    using spawnNext_Inr [OF wellFormed_clearRows [OF assms(1)]] by blast
  have "TetrisGame.score s' = TetrisGame.score (updateStats (int k) s)"
    using spawnNext_score [OF s'] snd_clearRows [OF assms(1)] assms(3) by simp
  then show ?thesis
    using eq s' updateStats_score [OF assms(4,5,6,7)] by simp
qed

lemma moveDown_lock:
  assumes "\<not> GameState.gameOver t" "\<not> GameState.isPaused t"
    "canMove (GameState.board t) (GameState.currentPiece t) (fst (position t)) (snd (position t) + 1)
       = Inr False"
    "placePiece (GameState.board t) (GameState.currentPiece t) (fst (position t)) (snd (position t))
       (currentColor t) = Inr placed"
    "clearLines placed = Inr (newBoard, k)"
    "canMove newBoard (GameState.nextPiece t) 3 0 = Inr ok"
  shows "moveDown r1 r2 t =
     Inr (if \<not> ok then t\<lparr>GameState.gameOver := True\<rparr>
          else t\<lparr>GameState.board := newBoard,
                 GameState.currentPiece := GameState.nextPiece t,
                 currentColor := nextColor t,
                 position := (3, 0),
                 GameState.score := jsPlus (GameState.score t)
                   (Number (if k = 1 then 100 else if k = 2 then 300 else if k = 3 then 500
                            else 800)),
                 GameState.lines := GameState.lines t + k,
                 GameState.level := (GameState.lines t + k) div 10 + 1,
                 GameState.nextPiece := fst (getRandomPiece r1),
                 nextColor := snd (getRandomPiece r2)\<rparr>)"
  using assms by (simp add: moveDown_def Let_def)

text \<open>
  Claim C3, as amended.  Hook variant: \<open>processBoardUpdate\<close> on a well-formed merged board
  with \<open>k \<le> 4\<close> full rows, at level \<open>L\<close>, raises the score by \<open>multiplier[k] * L\<close>, with
  multipliers 0, 100, 300, 500, 800; a lock that clears no row adds nothing.  Script
  variant: a lock in \<open>moveDown\<close> that clears 1, 2, 3 or 4 rows, and after which the next
  piece can spawn, raises the score by 100, 300, 500 or 800, whatever the level.  In both,
  the score before, the increase and the score after are safe integers: beyond them the
  sum is rounded.
\<close>

theorem score_delta:
  "(wellFormed nb \<and> shape (TetrisGame.nextPiece s) \<noteq> []
      \<and> length (filter (list_all (\<lambda>cell. cell \<noteq> Null)) nb) = k \<and> k \<le> 4
      \<and> TetrisGame.score s = Number n
      \<and> safeInteger n
      \<and> safeInteger ([0, 100, 300, 500, 800] ! k * TetrisGame.level s)
      \<and> safeInteger (n + [0, 100, 300, 500, 800] ! k * TetrisGame.level s)
    \<longrightarrow> (\<exists>s'. processBoardUpdate nb rnd s = Inr s'
           \<and> TetrisGame.score s' = Number (n + [0, 100, 300, 500, 800] ! k * TetrisGame.level s)))
   \<and> (\<not> GameState.gameOver t \<and> \<not> GameState.isPaused t
      \<and> canMove (GameState.board t) (GameState.currentPiece t) (fst (position t))
            (snd (position t) + 1) = Inr False
      \<and> placePiece (GameState.board t) (GameState.currentPiece t) (fst (position t))
            (snd (position t)) (currentColor t) = Inr placed
      \<and> clearLines placed = Inr (newBoard, int k')
      \<and> 1 \<le> k' \<and> k' \<le> 4
      \<and> canMove newBoard (GameState.nextPiece t) 3 0 = Inr True
      \<and> GameState.score t = Number n'
      \<and> safeInteger n'
      \<and> safeInteger (n' + [0, 100, 300, 500, 800] ! k')
    \<longrightarrow> (\<exists>t'. moveDown r1 r2 t = Inr t'
           \<and> GameState.score t' = Number (n' + [0, 100, 300, 500, 800] ! k')))"
proof (intro conjI impI)
  assume "wellFormed nb \<and> shape (TetrisGame.nextPiece s) \<noteq> []
      \<and> length (filter (list_all (\<lambda>cell. cell \<noteq> Null)) nb) = k \<and> k \<le> 4
      \<and> TetrisGame.score s = Number n
      \<and> safeInteger n
      \<and> safeInteger ([0, 100, 300, 500, 800] ! k * TetrisGame.level s)
      \<and> safeInteger (n + [0, 100, 300, 500, 800] ! k * TetrisGame.level s)"
  then show "\<exists>s'. processBoardUpdate nb rnd s = Inr s'
           \<and> TetrisGame.score s' = Number (n + [0, 100, 300, 500, 800] ! k * TetrisGame.level s)"
    using processBoardUpdate_score by blast
next
  assume a: "\<not> GameState.gameOver t \<and> \<not> GameState.isPaused t
      \<and> canMove (GameState.board t) (GameState.currentPiece t) (fst (position t))
            (snd (position t) + 1) = Inr False
      \<and> placePiece (GameState.board t) (GameState.currentPiece t) (fst (position t))
            (snd (position t)) (currentColor t) = Inr placed
      \<and> clearLines placed = Inr (newBoard, int k')
      \<and> 1 \<le> k' \<and> k' \<le> 4
      \<and> canMove newBoard (GameState.nextPiece t) 3 0 = Inr True
      \<and> GameState.score t = Number n'
      \<and> safeInteger n'
      \<and> safeInteger (n' + [0, 100, 300, 500, 800] ! k')"
  then have "k' = 1 \<or> k' = 2 \<or> k' = 3 \<or> k' = 4" by auto
  then show "\<exists>t'. moveDown r1 r2 t = Inr t'
           \<and> GameState.score t' = Number (n' + [0, 100, 300, 500, 800] ! k')"
    using a moveDown_lock [of t placed newBoard "int k'" True r1 r2]
    by (auto simp: toNumber_safe)
qed


lemma exScriptRow_run:
  "canMove (GameState.board exScriptRow) (GameState.currentPiece exScriptRow)
     (fst (position exScriptRow)) (snd (position exScriptRow) + 1) = Inr False"
  "placePiece (GameState.board exScriptRow) (GameState.currentPiece exScriptRow)
     (fst (position exScriptRow)) (snd (position exScriptRow)) (currentColor exScriptRow)
     = Inr (replicate 19 (replicate 10 (Num 0)) @ [replicate 10 (Num 1)])"
  "clearLines (replicate 19 (replicate 10 (Num 0)) @ [replicate 10 (Num 1)])
     = Inr (createEmptyBoard_script, 1)"
  "canMove createEmptyBoard_script (GameState.nextPiece exScriptRow) 3 0 = Inr True"
proof -
  show "canMove (GameState.board exScriptRow) (GameState.currentPiece exScriptRow)
     (fst (position exScriptRow)) (snd (position exScriptRow) + 1) = Inr False"
    by (simp add: exScriptRow_def initialGameState_def getRandomPiece_def PIECES_def canMove_def
        BOARD_WIDTH_def BOARD_HEIGHT_def)
  show "placePiece (GameState.board exScriptRow) (GameState.currentPiece exScriptRow)
     (fst (position exScriptRow)) (snd (position exScriptRow)) (currentColor exScriptRow)
     = Inr (replicate 19 (replicate 10 (Num 0)) @ [replicate 10 (Num 1)])"
    by (simp add: exScriptRow_def initialGameState_def getRandomPiece_def PIECES_def placePiece_def
        BOARD_WIDTH_def BOARD_HEIGHT_def writeCell_def jsIndex_def jsSet_def Let_def
        nth_append list_update_append numeral_eq_Suc)
  have "x # replicate 19 x = replicate 20 x" for x :: "jsval list"
    by (simp add: numeral_eq_Suc)
  then show "clearLines (replicate 19 (replicate 10 (Num 0)) @ [replicate 10 (Num 1)])
     = Inr (createEmptyBoard_script, 1)"
    by (simp add: clearLines_eq createEmptyBoard_script_def BOARD_WIDTH_def BOARD_HEIGHT_def
        list_all_iff)
  show "canMove createEmptyBoard_script (GameState.nextPiece exScriptRow) 3 0 = Inr True"
    by (simp add: exScriptRow_def initialGameState_def getRandomPiece_def PIECES_def canMove_def
        createEmptyBoard_script_def BOARD_WIDTH_def BOARD_HEIGHT_def jsIndex_def cellAt_def)
qed

theorem score_delta_witness:
  "(\<exists>s'. processBoardUpdate
            (replicate 19 (replicate 10 Null) @ [replicate 10 (Str ''bg-red-500'')]) TypeI
            (exRunning\<lparr>TetrisGame.score := Number 40, TetrisGame.lines := 20, TetrisGame.level := 3\<rparr>)
          = Inr s'
        \<and> TetrisGame.score s' = Number 340)
   \<and> (\<exists>t'. moveDown 0 0 exScriptRow = Inr t' \<and> GameState.score t' = Number 100)"
proof -
  let ?nb = "replicate 19 (replicate 10 Null) @ [replicate 10 (Str ''bg-red-500'')]"
  let ?s = "exRunning\<lparr>TetrisGame.score := Number 40, TetrisGame.lines := 20, TetrisGame.level := 3\<rparr>"
  have h: "wellFormed ?nb \<and> shape (TetrisGame.nextPiece ?s) \<noteq> []
      \<and> length (filter (list_all (\<lambda>cell. cell \<noteq> Null)) ?nb) = 1 \<and> (1::nat) \<le> 4
      \<and> TetrisGame.score ?s = Number 40"
    by (simp add: wellFormed_def BOARD_WIDTH_def BOARD_HEIGHT_def list_all_iff exRunning_def
        startGame_def randomTetromino_def)
  have lv: "TetrisGame.level ?s = 3" by simp
  have safe: "safeInteger 40" "safeInteger 300" "safeInteger 340" "safeInteger 0"
    "safeInteger 100"
    by (simp_all add: safeInteger_def)
  have g: "\<not> GameState.gameOver exScriptRow \<and> \<not> GameState.isPaused exScriptRow"
    "GameState.score exScriptRow = Number 0"
    by (simp_all add: exScriptRow_def initialGameState_def)
  show ?thesis
    using score_delta [where nb = ?nb and s = ?s and k = 1 and n = 40 and rnd = TypeI
        and t = exScriptRow and k' = 1 and newBoard = createEmptyBoard_script
        and placed = "replicate 19 (replicate 10 (Num 0)) @ [replicate 10 (Num 1)]"
        and ?r1.0 = 0 and ?r2.0 = 0 and n' = 0]
      h g exScriptRow_run safe
    unfolding lv by simp
qed

text \<open>
  The claim as first stated multiplied by the level in every lock.  The script variant does
  not: at level 2, from score 0, a lock that clears one row gives score 100.
\<close>

theorem score_delta_level_counterexample:
  "GameState.level exScriptRow = 2 \<and> GameState.score exScriptRow = Number 0
   \<and> map_sum id (\<lambda>t'. (GameState.lines t' - GameState.lines exScriptRow, GameState.score t'))
        (moveDown 0 0 exScriptRow) = Inr (1, Number 100)"
  using moveDown_lock [OF _ _ exScriptRow_run, of 0 0]
  by (simp add: exScriptRow_def initialGameState_def toNumber_safe safeInteger_def)

subsection \<open>Game over at spawn\<close>

lemma processBoardUpdate_gameOver:
  assumes "shape (TetrisGame.nextPiece s) = row0 # rest"
    "checkCollision (10 div 2 - int (length row0) div 2, 0) (shape (TetrisGame.nextPiece s))
       (fst (clearRows nb)) = Inr True"
  shows "processBoardUpdate nb rnd s =
     Inr ((updateStats (snd (clearRows nb)) s)
            \<lparr>TetrisGame.board := fst (clearRows nb),
             TetrisGame.gameOver := True, gameStarted := False\<rparr>)"
proof -
  obtain fb k where cr: "clearRows nb = (fb, k)" by (cases "clearRows nb")
  have "TetrisGame.nextPiece (updateStats k s) = TetrisGame.nextPiece s"
    by (simp add: updateStats_def)
  then show ?thesis
    using assms
    by (simp add: processBoardUpdate_def spawnNext_def withPos_def Let_def BOARD_WIDTH_def cr)
qed

text \<open>
  Claim C5, as amended.  Hook variant: when the queued piece collides at its spawn position
  with the freshly cleared board, \<open>processBoardUpdate\<close> keeps that board, sets \<open>gameOver\<close> and
  clears \<open>gameStarted\<close>; the active and the queued piece and the pause flag are as before,
  and score, lines and level are those of the clear (\<open>updateStats\<close>): the spawn attempt
  adds nothing.  Script variant: \<open>moveDown\<close> returns the state it was given with only
  \<open>gameOver\<close> set, so the board stays the board before the lock.
\<close>

theorem spawn_collision_game_over:
  "(shape (TetrisGame.nextPiece s) = row0 # rest
      \<and> checkCollision (10 div 2 - int (length row0) div 2, 0) (shape (TetrisGame.nextPiece s))
           (fst (clearRows nb)) = Inr True
    \<longrightarrow> processBoardUpdate nb rnd s =
          Inr ((updateStats (snd (clearRows nb)) s)
                 \<lparr>TetrisGame.board := fst (clearRows nb),
                  TetrisGame.gameOver := True, gameStarted := False\<rparr>)
        \<and> (\<forall>s'. processBoardUpdate nb rnd s = Inr s' \<longrightarrow>
              TetrisGame.board s' = fst (clearRows nb)
            \<and> TetrisGame.currentPiece s' = TetrisGame.currentPiece s
            \<and> TetrisGame.nextPiece s' = TetrisGame.nextPiece s
            \<and> TetrisGame.score s' = TetrisGame.score (updateStats (snd (clearRows nb)) s)
            \<and> TetrisGame.lines s' = TetrisGame.lines (updateStats (snd (clearRows nb)) s)
            \<and> TetrisGame.level s' = TetrisGame.level (updateStats (snd (clearRows nb)) s)
            \<and> TetrisGame.isPaused s' = TetrisGame.isPaused s
            \<and> TetrisGame.gameOver s' \<and> \<not> gameStarted s'))
   \<and> (\<not> GameState.gameOver t \<and> \<not> GameState.isPaused t
      \<and> canMove (GameState.board t) (GameState.currentPiece t) (fst (position t))
            (snd (position t) + 1) = Inr False
      \<and> placePiece (GameState.board t) (GameState.currentPiece t) (fst (position t))
            (snd (position t)) (currentColor t) = Inr placed
      \<and> clearLines placed = Inr (newBoard, k)
      \<and> canMove newBoard (GameState.nextPiece t) 3 0 = Inr False
    \<longrightarrow> moveDown r1 r2 t = Inr (t\<lparr>GameState.gameOver := True\<rparr>))"
proof (intro conjI impI)
  assume a: "shape (TetrisGame.nextPiece s) = row0 # rest
      \<and> checkCollision (10 div 2 - int (length row0) div 2, 0) (shape (TetrisGame.nextPiece s))
           (fst (clearRows nb)) = Inr True"
  then show eq: "processBoardUpdate nb rnd s =
          Inr ((updateStats (snd (clearRows nb)) s)
                 \<lparr>TetrisGame.board := fst (clearRows nb),
                  TetrisGame.gameOver := True, gameStarted := False\<rparr>)"
    using processBoardUpdate_gameOver by blast
  have keep: "TetrisGame.currentPiece (updateStats j s) = TetrisGame.currentPiece s"
    "TetrisGame.nextPiece (updateStats j s) = TetrisGame.nextPiece s"
    "TetrisGame.isPaused (updateStats j s) = TetrisGame.isPaused s" for j
    by (simp_all add: updateStats_def)
  show "\<forall>s'. processBoardUpdate nb rnd s = Inr s' \<longrightarrow>
              TetrisGame.board s' = fst (clearRows nb)
            \<and> TetrisGame.currentPiece s' = TetrisGame.currentPiece s
            \<and> TetrisGame.nextPiece s' = TetrisGame.nextPiece s
            \<and> TetrisGame.score s' = TetrisGame.score (updateStats (snd (clearRows nb)) s)
            \<and> TetrisGame.lines s' = TetrisGame.lines (updateStats (snd (clearRows nb)) s)
            \<and> TetrisGame.level s' = TetrisGame.level (updateStats (snd (clearRows nb)) s)
            \<and> TetrisGame.isPaused s' = TetrisGame.isPaused s
            \<and> TetrisGame.gameOver s' \<and> \<not> gameStarted s'"
    unfolding eq by (simp add: keep)
next
  assume "\<not> GameState.gameOver t \<and> \<not> GameState.isPaused t
      \<and> canMove (GameState.board t) (GameState.currentPiece t) (fst (position t))
            (snd (position t) + 1) = Inr False
      \<and> placePiece (GameState.board t) (GameState.currentPiece t) (fst (position t))
            (snd (position t)) (currentColor t) = Inr placed
      \<and> clearLines placed = Inr (newBoard, k)
      \<and> canMove newBoard (GameState.nextPiece t) 3 0 = Inr False"
  then show "moveDown r1 r2 t = Inr (t\<lparr>GameState.gameOver := True\<rparr>)"
    using moveDown_lock [of t placed newBoard k False r1 r2] by simp
qed

text \<open>The top row of \<open>exScriptTop\<close> after its I piece is placed.\<close>

lemma exScriptTop_run:
  "canMove (GameState.board exScriptTop) (GameState.currentPiece exScriptTop)
     (fst (position exScriptTop)) (snd (position exScriptTop) + 1) = Inr False"
  "placePiece (GameState.board exScriptTop) (GameState.currentPiece exScriptTop)
     (fst (position exScriptTop)) (snd (position exScriptTop)) (currentColor exScriptTop)
     = Inr ([Num 0, Num 0, Num 0, Num 1, Num 1, Num 1, Num 1, Num 0, Num 0, Num 0]
              # replicate 19 [Num 0, Num 0, Num 0, Num 1, Num 1, Num 1, Num 1, Num 0, Num 0, Num 0])"
  "clearLines ([Num 0, Num 0, Num 0, Num 1, Num 1, Num 1, Num 1, Num 0, Num 0, Num 0]
              # replicate 19 [Num 0, Num 0, Num 0, Num 1, Num 1, Num 1, Num 1, Num 0, Num 0, Num 0])
     = Inr ([Num 0, Num 0, Num 0, Num 1, Num 1, Num 1, Num 1, Num 0, Num 0, Num 0]
              # replicate 19 [Num 0, Num 0, Num 0, Num 1, Num 1, Num 1, Num 1, Num 0, Num 0, Num 0], 0)"
  "canMove ([Num 0, Num 0, Num 0, Num 1, Num 1, Num 1, Num 1, Num 0, Num 0, Num 0]
              # replicate 19 [Num 0, Num 0, Num 0, Num 1, Num 1, Num 1, Num 1, Num 0, Num 0, Num 0])
     (GameState.nextPiece exScriptTop) 3 0 = Inr False"
proof -
  show "canMove (GameState.board exScriptTop) (GameState.currentPiece exScriptTop)
     (fst (position exScriptTop)) (snd (position exScriptTop) + 1) = Inr False"
    by (simp add: exScriptTop_def initialGameState_def getRandomPiece_def PIECES_def canMove_def
        BOARD_WIDTH_def BOARD_HEIGHT_def jsIndex_def cellAt_def)
  show "placePiece (GameState.board exScriptTop) (GameState.currentPiece exScriptTop)
     (fst (position exScriptTop)) (snd (position exScriptTop)) (currentColor exScriptTop)
     = Inr ([Num 0, Num 0, Num 0, Num 1, Num 1, Num 1, Num 1, Num 0, Num 0, Num 0]
              # replicate 19 [Num 0, Num 0, Num 0, Num 1, Num 1, Num 1, Num 1, Num 0, Num 0, Num 0])"
    by (simp add: exScriptTop_def initialGameState_def getRandomPiece_def PIECES_def placePiece_def
        BOARD_WIDTH_def BOARD_HEIGHT_def writeCell_def jsIndex_def jsSet_def Let_def numeral_eq_Suc)
  show "clearLines ([Num 0, Num 0, Num 0, Num 1, Num 1, Num 1, Num 1, Num 0, Num 0, Num 0]
              # replicate 19 [Num 0, Num 0, Num 0, Num 1, Num 1, Num 1, Num 1, Num 0, Num 0, Num 0])
     = Inr ([Num 0, Num 0, Num 0, Num 1, Num 1, Num 1, Num 1, Num 0, Num 0, Num 0]
              # replicate 19 [Num 0, Num 0, Num 0, Num 1, Num 1, Num 1, Num 1, Num 0, Num 0, Num 0], 0)"
    by (simp add: clearLines_eq)
  show "canMove ([Num 0, Num 0, Num 0, Num 1, Num 1, Num 1, Num 1, Num 0, Num 0, Num 0]
              # replicate 19 [Num 0, Num 0, Num 0, Num 1, Num 1, Num 1, Num 1, Num 0, Num 0, Num 0])
     (GameState.nextPiece exScriptTop) 3 0 = Inr False"
    by (simp add: exScriptTop_def initialGameState_def getRandomPiece_def PIECES_def canMove_def
        BOARD_WIDTH_def BOARD_HEIGHT_def jsIndex_def cellAt_def)
qed

theorem spawn_collision_game_over_witness:
  "processBoardUpdate (createEmptyBoard[1 := (replicate 10 Null)[4 := Str ''bg-red-500'']]) TypeI
       exRunning
     = Inr (exRunning
              \<lparr>TetrisGame.board := createEmptyBoard[1 := (replicate 10 Null)[4 := Str ''bg-red-500'']],
               TetrisGame.gameOver := True, gameStarted := False\<rparr>)
   \<and> moveDown 0 0 exScriptTop = Inr (exScriptTop\<lparr>GameState.gameOver := True\<rparr>)"
proof -
  let ?nb = "createEmptyBoard[1 := (replicate 10 Null)[4 := Str ''bg-red-500'']]"
  have len: "length ?nb = 20" by (simp add: createEmptyBoard_def BOARD_HEIGHT_def)
  have cl: "clearRows ?nb = (?nb, 0)"
    unfolding clearRows_eq [OF len]
    by (simp add: createEmptyBoard_def BOARD_HEIGHT_def BOARD_WIDTH_def list_all_iff
        numeral_eq_Suc)
  have sh: "shape (TetrisGame.nextPiece exRunning)
      = [Num 0, Num 1, Num 0] # [[Num 1, Num 1, Num 1], [Num 0, Num 0, Num 0]]"
    by (simp add: exRunning_def startGame_def randomTetromino_def)
  have cc: "checkCollision (10 div 2 - int (length [Num 0, Num 1, Num 0]) div 2, 0)
      (shape (TetrisGame.nextPiece exRunning)) (fst (clearRows ?nb)) = Inr True"
    unfolding cl sh
    by (simp add: checkCollision_def createEmptyBoard_def BOARD_WIDTH_def BOARD_HEIGHT_def
        jsIndex_def cellAt_def)
  have g: "\<not> GameState.gameOver exScriptTop \<and> \<not> GameState.isPaused exScriptTop"
    by (simp add: exScriptTop_def initialGameState_def)
  have u: "updateStats 0 exRunning = exRunning" by (simp add: updateStats_def)
  note inst = spawn_collision_game_over [where s = exRunning and nb = ?nb and rnd = TypeI
        and ?row0.0 = "[Num 0, Num 1, Num 0]" and rest = "[[Num 1, Num 1, Num 1], [Num 0, Num 0, Num 0]]"
        and t = exScriptTop and k = 0 and ?r1.0 = 0 and ?r2.0 = 0
        and placed = "[Num 0, Num 0, Num 0, Num 1, Num 1, Num 1, Num 1, Num 0, Num 0, Num 0]
              # replicate 19 [Num 0, Num 0, Num 0, Num 1, Num 1, Num 1, Num 1, Num 0, Num 0, Num 0]"
        and newBoard = "[Num 0, Num 0, Num 0, Num 1, Num 1, Num 1, Num 1, Num 0, Num 0, Num 0]
              # replicate 19 [Num 0, Num 0, Num 0, Num 1, Num 1, Num 1, Num 1, Num 0, Num 0, Num 0]"]
  have "processBoardUpdate ?nb TypeI exRunning =
      Inr ((updateStats (snd (clearRows ?nb)) exRunning)
             \<lparr>TetrisGame.board := fst (clearRows ?nb),
              TetrisGame.gameOver := True, gameStarted := False\<rparr>)"
    using inst sh cc by blast
  moreover have "moveDown 0 0 exScriptTop = Inr (exScriptTop\<lparr>GameState.gameOver := True\<rparr>)"
    using inst g exScriptTop_run by blast
  ultimately show ?thesis
    unfolding cl fst_conv snd_conv u by (rule conjI)
qed

text \<open>
  The claim as first stated kept the freshly cleared board in every game over.  The script
  variant discards it: in \<open>exScriptTop\<close> the locked I piece fills four cells of row 0 of the
  cleared board, and the board of the returned state is the one before the lock.
\<close>

theorem spawn_collision_board_counterexample:
  "map_sum id GameState.board (moveDown 0 0 exScriptTop) = Inr (GameState.board exScriptTop)
   \<and> (case placePiece (GameState.board exScriptTop) (GameState.currentPiece exScriptTop)
             (fst (position exScriptTop)) (snd (position exScriptTop)) (currentColor exScriptTop) of
         Inl e \<Rightarrow> Inl e
       | Inr placed \<Rightarrow> map_sum id fst (clearLines placed))
       = Inr ([Num 0, Num 0, Num 0, Num 1, Num 1, Num 1, Num 1, Num 0, Num 0, Num 0]
              # replicate 19 [Num 0, Num 0, Num 0, Num 1, Num 1, Num 1, Num 1, Num 0, Num 0, Num 0])
   \<and> GameState.board exScriptTop
       \<noteq> [Num 0, Num 0, Num 0, Num 1, Num 1, Num 1, Num 1, Num 0, Num 0, Num 0]
              # replicate 19 [Num 0, Num 0, Num 0, Num 1, Num 1, Num 1, Num 1, Num 0, Num 0, Num 0]"
proof -
  have g: "\<not> GameState.gameOver exScriptTop" "\<not> GameState.isPaused exScriptTop"
    by (simp_all add: exScriptTop_def initialGameState_def)
  have run: "moveDown 0 0 exScriptTop = Inr (exScriptTop\<lparr>GameState.gameOver := True\<rparr>)"
    using moveDown_lock [OF g exScriptTop_run, of 0 0] by simp
  have ne: "GameState.board exScriptTop
       \<noteq> [Num 0, Num 0, Num 0, Num 1, Num 1, Num 1, Num 1, Num 0, Num 0, Num 0]
              # replicate 19 [Num 0, Num 0, Num 0, Num 1, Num 1, Num 1, Num 1, Num 0, Num 0, Num 0]"
    by (simp add: exScriptTop_def numeral_eq_Suc)
  show ?thesis
    unfolding run exScriptTop_run(2) using exScriptTop_run(3) ne by simp
qed

subsection \<open>Spawn position\<close>

lemma spawnNext_spawned:
  assumes "spawnNext fb rnd s = Inr s'" "\<not> TetrisGame.gameOver s'"
  shows "TetrisGame.currentPiece s' =
           withPos (TetrisGame.nextPiece s)
             (10 div 2 - int (length (shape (TetrisGame.nextPiece s) ! 0)) div 2, 0)"
  using assms
  by (auto simp: spawnNext_def Let_def BOARD_WIDTH_def split: list.splits sum.splits if_splits)

lemma processBoardUpdate_spawned:
  assumes "processBoardUpdate nb rnd s = Inr s'" "\<not> TetrisGame.gameOver s'"
  shows "TetrisGame.currentPiece s' =
           withPos (TetrisGame.nextPiece s)
             (10 div 2 - int (length (shape (TetrisGame.nextPiece s) ! 0)) div 2, 0)"
proof -
  obtain fb k where cr: "clearRows nb = (fb, k)" by (cases "clearRows nb")
  have n: "TetrisGame.nextPiece ((updateStats k s)\<lparr>TetrisGame.board := fb\<rparr>) = TetrisGame.nextPiece s"
    by (simp add: updateStats_def)
  from assms(1) have "spawnNext fb rnd ((updateStats k s)\<lparr>TetrisGame.board := fb\<rparr>) = Inr s'"
    by (simp add: processBoardUpdate_def cr)
  from spawnNext_spawned [OF this assms(2)] show ?thesis
    unfolding n .
qed

text \<open>
  Claim C8, as amended.  Hook variant: a spawn after a lock-and-clear cycle places the
  queued piece at \<open>x = floor(10/2) - floor(shapeWidth/2)\<close>, \<open>y = 0\<close>, the width being that of
  the first row of its shape; at session start (\<open>initialState\<close>, \<open>startGame\<close>) the piece is at
  \<open>y = 0\<close>, and at that \<open>x\<close> for every shape but I.  Script variant: every spawn, at session
  start, at reset and after a lock, is at \<open>(3, 0)\<close>.
\<close>

theorem spawn_position:
  "(processBoardUpdate nb rnd s = Inr s' \<and> \<not> TetrisGame.gameOver s'
     \<longrightarrow> TetrisGame.currentPiece s' =
           withPos (TetrisGame.nextPiece s)
             (10 div 2 - int (length (shape (TetrisGame.nextPiece s) ! 0)) div 2, 0))
   \<and> (k1 \<noteq> TypeI
     \<longrightarrow> pos (TetrisGame.currentPiece (startGame k1 k2 s))
           = (10 div 2 - int (length (fst (TETROMINOES k1) ! 0)) div 2, 0)
       \<and> pos (TetrisGame.currentPiece (initialState k1 k2))
           = (10 div 2 - int (length (fst (TETROMINOES k1) ! 0)) div 2, 0))
   \<and> snd (pos (TetrisGame.currentPiece (startGame k1 k2 s))) = 0
   \<and> snd (pos (TetrisGame.currentPiece (initialState k1 k2))) = 0
   \<and> position (initialGameState r1 r2) = (3, 0)
   \<and> position (resetGame r1 r2 t) = (3, 0)
   \<and> (\<not> GameState.gameOver t \<and> \<not> GameState.isPaused t
      \<and> canMove (GameState.board t) (GameState.currentPiece t) (fst (position t))
            (snd (position t) + 1) = Inr False
      \<and> moveDown r1 r2 t = Inr t' \<and> \<not> GameState.gameOver t'
     \<longrightarrow> position t' = (3, 0) \<and> GameState.currentPiece t' = GameState.nextPiece t)"
proof -
  have 1: "TetrisGame.currentPiece s' =
           withPos (TetrisGame.nextPiece s)
             (10 div 2 - int (length (shape (TetrisGame.nextPiece s) ! 0)) div 2, 0)"
    if "processBoardUpdate nb rnd s = Inr s' \<and> \<not> TetrisGame.gameOver s'"
    using that processBoardUpdate_spawned by blast
  have 2: "pos (TetrisGame.currentPiece (startGame k1 k2 s))
           = (10 div 2 - int (length (fst (TETROMINOES k1) ! 0)) div 2, 0)
       \<and> pos (TetrisGame.currentPiece (initialState k1 k2))
           = (10 div 2 - int (length (fst (TETROMINOES k1) ! 0)) div 2, 0)"
    if "k1 \<noteq> TypeI"
    using that
    by (cases k1) (simp_all add: startGame_def initialState_def withPos_def BOARD_WIDTH_def)
  have 3: "snd (pos (TetrisGame.currentPiece (startGame k1 k2 s))) = 0"
    "snd (pos (TetrisGame.currentPiece (initialState k1 k2))) = 0"
    "position (initialGameState r1 r2) = (3, 0)" "position (resetGame r1 r2 t) = (3, 0)"
    by (simp_all add: startGame_def initialState_def withPos_def initialGameState_def resetGame_def)
  have 4: "position t' = (3, 0) \<and> GameState.currentPiece t' = GameState.nextPiece t"
    if "\<not> GameState.gameOver t \<and> \<not> GameState.isPaused t
      \<and> canMove (GameState.board t) (GameState.currentPiece t) (fst (position t))
            (snd (position t) + 1) = Inr False
      \<and> moveDown r1 r2 t = Inr t' \<and> \<not> GameState.gameOver t'"
    using that
    by (auto simp: moveDown_def Let_def split: sum.splits if_splits prod.splits)
  show ?thesis
    using 1 2 3 4 by blast
qed

theorem spawn_position_witness:
  "(\<exists>s'. processBoardUpdate createEmptyBoard TypeI exRunning = Inr s'
        \<and> TetrisGame.currentPiece s' = withPos (randomTetromino TypeT) (4, 0))
   \<and> pos (TetrisGame.currentPiece (startGame TypeO TypeT exRunning)) = (4, 0)
   \<and> (\<exists>t'. moveDown 0 0 exScriptRow = Inr t' \<and> position t' = (3, 0)
        \<and> GameState.currentPiece t' = PIECES ! 1)"
proof -
  have len: "length createEmptyBoard = 20" by (simp add: createEmptyBoard_def BOARD_HEIGHT_def)
  have cl: "clearRows createEmptyBoard = (createEmptyBoard, 0)"
    unfolding clearRows_eq [OF len]
    by (simp add: createEmptyBoard_def BOARD_HEIGHT_def BOARD_WIDTH_def list_all_iff)
  have run: "processBoardUpdate createEmptyBoard TypeI exRunning =
      Inr (exRunning\<lparr>TetrisGame.board := createEmptyBoard,
             TetrisGame.currentPiece := withPos (randomTetromino TypeT) (4, 0),
             TetrisGame.nextPiece := randomTetromino TypeI\<rparr>)"
    unfolding processBoardUpdate_def cl
    by (simp add: updateStats_def spawnNext_def exRunning_def
        startGame_def randomTetromino_def withPos_def Let_def checkCollision_def
        createEmptyBoard_def BOARD_WIDTH_def BOARD_HEIGHT_def jsIndex_def cellAt_def)
  have go: "\<not> TetrisGame.gameOver (exRunning\<lparr>TetrisGame.board := createEmptyBoard,
             TetrisGame.currentPiece := withPos (randomTetromino TypeT) (4, 0),
             TetrisGame.nextPiece := randomTetromino TypeI\<rparr>)"
    by (simp add: exRunning_def startGame_def)
  have nx: "TetrisGame.nextPiece exRunning = randomTetromino TypeT"
    "10 div 2 - int (length (shape (randomTetromino TypeT) ! 0)) div 2 = 4"
    "(10::int) div 2 - int (length (fst (TETROMINOES TypeO) ! 0)) div 2 = 4"
    by (simp_all add: exRunning_def startGame_def randomTetromino_def)
  have g: "\<not> GameState.gameOver exScriptRow" "\<not> GameState.isPaused exScriptRow"
    "GameState.nextPiece exScriptRow = PIECES ! 1"
    by (simp_all add: exScriptRow_def initialGameState_def getRandomPiece_def)
  have mv: "moveDown 0 0 exScriptRow =
      Inr (exScriptRow\<lparr>GameState.board := createEmptyBoard_script,
                 GameState.currentPiece := GameState.nextPiece exScriptRow,
                 currentColor := nextColor exScriptRow,
                 position := (3, 0),
                 GameState.score := jsPlus (GameState.score exScriptRow) (Number 100),
                 GameState.lines := GameState.lines exScriptRow + 1,
                 GameState.level := (GameState.lines exScriptRow + 1) div 10 + 1,
                 GameState.nextPiece := fst (getRandomPiece 0),
                 nextColor := snd (getRandomPiece 0)\<rparr>)"
    using moveDown_lock [OF g(1,2) exScriptRow_run, of 0 0] by simp
  note inst = spawn_position [where nb = createEmptyBoard and rnd = TypeI and s = exRunning
      and s' = "exRunning\<lparr>TetrisGame.board := createEmptyBoard,
             TetrisGame.currentPiece := withPos (randomTetromino TypeT) (4, 0),
             TetrisGame.nextPiece := randomTetromino TypeI\<rparr>"
      and ?k1.0 = TypeO and ?k2.0 = TypeT and ?r1.0 = 0 and ?r2.0 = 0 and t = exScriptRow
      and t' = "exScriptRow\<lparr>GameState.board := createEmptyBoard_script,
                 GameState.currentPiece := GameState.nextPiece exScriptRow,
                 currentColor := nextColor exScriptRow,
                 position := (3, 0),
                 GameState.score := jsPlus (GameState.score exScriptRow) (Number 100),
                 GameState.lines := GameState.lines exScriptRow + 1,
                 GameState.level := (GameState.lines exScriptRow + 1) div 10 + 1,
                 GameState.nextPiece := fst (getRandomPiece 0),
                 nextColor := snd (getRandomPiece 0)\<rparr>"]
  have a: "TetrisGame.currentPiece (exRunning\<lparr>TetrisGame.board := createEmptyBoard,
             TetrisGame.currentPiece := withPos (randomTetromino TypeT) (4, 0),
             TetrisGame.nextPiece := randomTetromino TypeI\<rparr>)
      = withPos (TetrisGame.nextPiece exRunning)
          (10 div 2 - int (length (shape (TetrisGame.nextPiece exRunning) ! 0)) div 2, 0)"
    using inst run go by blast
  have b: "pos (TetrisGame.currentPiece (startGame TypeO TypeT exRunning)) = (4, 0)"
    using inst nx(3) by simp
  have go': "\<not> GameState.gameOver (exScriptRow\<lparr>GameState.board := createEmptyBoard_script,
                 GameState.currentPiece := GameState.nextPiece exScriptRow,
                 currentColor := nextColor exScriptRow,
                 position := (3, 0),
                 GameState.score := jsPlus (GameState.score exScriptRow) (Number 100),
                 GameState.lines := GameState.lines exScriptRow + 1,
                 GameState.level := (GameState.lines exScriptRow + 1) div 10 + 1,
                 GameState.nextPiece := fst (getRandomPiece 0),
                 nextColor := snd (getRandomPiece 0)\<rparr>)"
    using g(1) by simp
  have c: "position (exScriptRow\<lparr>GameState.board := createEmptyBoard_script,
                 GameState.currentPiece := GameState.nextPiece exScriptRow,
                 currentColor := nextColor exScriptRow,
                 position := (3, 0),
                 GameState.score := jsPlus (GameState.score exScriptRow) (Number 100),
                 GameState.lines := GameState.lines exScriptRow + 1,
                 GameState.level := (GameState.lines exScriptRow + 1) div 10 + 1,
                 GameState.nextPiece := fst (getRandomPiece 0),
                 nextColor := snd (getRandomPiece 0)\<rparr>) = (3, 0)
      \<and> GameState.currentPiece (exScriptRow\<lparr>GameState.board := createEmptyBoard_script,
                 GameState.currentPiece := GameState.nextPiece exScriptRow,
                 currentColor := nextColor exScriptRow,
                 position := (3, 0),
                 GameState.score := jsPlus (GameState.score exScriptRow) (Number 100),
                 GameState.lines := GameState.lines exScriptRow + 1,
                 GameState.level := (GameState.lines exScriptRow + 1) div 10 + 1,
                 GameState.nextPiece := fst (getRandomPiece 0),
                 nextColor := snd (getRandomPiece 0)\<rparr>) = GameState.nextPiece exScriptRow"
    using inst g(1,2) exScriptRow_run(1) mv go' by blast
  show ?thesis
    unfolding run mv using a b c g(3) nx(1,2) by simp
qed

text \<open>
  The claim as first stated centred every spawn by the shape's width.  The script variant
  spawns at column 3 whatever the shape: its O piece, of width 2, starts at \<open>x = 3\<close>, not 4.
\<close>

theorem spawn_position_script_counterexample:
  "position (initialGameState 0 1) = (3, 0)
   \<and> GameState.currentPiece (initialGameState 0 1) = [[Num 1, Num 1], [Num 1, Num 1]]
   \<and> 10 div 2 - int (length (GameState.currentPiece (initialGameState 0 1) ! 0)) div 2 = (4::int)"
  by (simp add: initialGameState_def getRandomPiece_def PIECES_def)

subsection \<open>Rotation and wall kick\<close>

lemma rotate_order:
  assumes "gameStarted s" "\<not> TetrisGame.gameOver s" "\<not> TetrisGame.isPaused s"
    "wellFormed (TetrisGame.board s)" "rotateMatrix (shape (TetrisGame.currentPiece s)) = Inr r"
  shows "rotate' s =
     Inr (if checkCollision (pos (TetrisGame.currentPiece s)) r (TetrisGame.board s) = Inr False
          then s\<lparr>TetrisGame.currentPiece := (TetrisGame.currentPiece s)\<lparr>shape := r\<rparr>\<rparr>
          else if checkCollision (fst (pos (TetrisGame.currentPiece s)) - 1,
                    snd (pos (TetrisGame.currentPiece s))) r (TetrisGame.board s) = Inr False
          then s\<lparr>TetrisGame.currentPiece := (TetrisGame.currentPiece s)
                 \<lparr>pos := (fst (pos (TetrisGame.currentPiece s)) - 1,
                          snd (pos (TetrisGame.currentPiece s)))\<rparr>\<lparr>shape := r\<rparr>\<rparr>
          else if checkCollision (fst (pos (TetrisGame.currentPiece s)) + 1,
                    snd (pos (TetrisGame.currentPiece s))) r (TetrisGame.board s) = Inr False
          then s\<lparr>TetrisGame.currentPiece := (TetrisGame.currentPiece s)
                 \<lparr>pos := (fst (pos (TetrisGame.currentPiece s)) + 1,
                          snd (pos (TetrisGame.currentPiece s)))\<rparr>\<lparr>shape := r\<rparr>\<rparr>
          else s)"
  using assms by (simp add: rotate'_def Let_def checkCollision_hits)

lemma handleKeyDown_ArrowUp:
  assumes "\<not> GameState.gameOver t" "wellFormed (GameState.board t)"
    "rotatePiece (GameState.currentPiece t) = Inr r"
  shows "handleKeyDown ArrowUp r1 r2 t =
     Inr (if canMove (GameState.board t) r (fst (position t)) (snd (position t)) = Inr True
          then t\<lparr>GameState.currentPiece := r\<rparr> else t)"
  using assms by (simp add: handleKeyDown_def canMove_hits)

text \<open>
  Claim C4, as amended.  Hook variant, while the game runs: \<open>rotate\<close> tries the rotated shape
  at the unchanged position, then one column to the left, then one column to the right,
  and takes the first that does not collide; if all three collide the state is unchanged.
  A piece that collides at \<open>x\<close> and at \<open>x - 1\<close> and fits at \<open>x + 1\<close> ends at \<open>x + 1\<close>.
  Script variant: the \<open>ArrowUp\<close> handler tries the unchanged position only.
\<close>

theorem rotation_kick:
  "(gameStarted s \<and> \<not> TetrisGame.gameOver s \<and> \<not> TetrisGame.isPaused s
      \<and> wellFormed (TetrisGame.board s) \<and> rotateMatrix (shape (TetrisGame.currentPiece s)) = Inr r
    \<longrightarrow> rotate' s =
          Inr (if checkCollision (pos (TetrisGame.currentPiece s)) r (TetrisGame.board s) = Inr False
               then s\<lparr>TetrisGame.currentPiece := (TetrisGame.currentPiece s)\<lparr>shape := r\<rparr>\<rparr>
               else if checkCollision (fst (pos (TetrisGame.currentPiece s)) - 1,
                         snd (pos (TetrisGame.currentPiece s))) r (TetrisGame.board s) = Inr False
               then s\<lparr>TetrisGame.currentPiece := (TetrisGame.currentPiece s)
                      \<lparr>pos := (fst (pos (TetrisGame.currentPiece s)) - 1,
                               snd (pos (TetrisGame.currentPiece s)))\<rparr>\<lparr>shape := r\<rparr>\<rparr>
               else if checkCollision (fst (pos (TetrisGame.currentPiece s)) + 1,
                         snd (pos (TetrisGame.currentPiece s))) r (TetrisGame.board s) = Inr False
               then s\<lparr>TetrisGame.currentPiece := (TetrisGame.currentPiece s)
                      \<lparr>pos := (fst (pos (TetrisGame.currentPiece s)) + 1,
                               snd (pos (TetrisGame.currentPiece s)))\<rparr>\<lparr>shape := r\<rparr>\<rparr>
               else s)
        \<and> (checkCollision (pos (TetrisGame.currentPiece s)) r (TetrisGame.board s) = Inr True
            \<and> checkCollision (fst (pos (TetrisGame.currentPiece s)) - 1,
                 snd (pos (TetrisGame.currentPiece s))) r (TetrisGame.board s) = Inr True
            \<and> checkCollision (fst (pos (TetrisGame.currentPiece s)) + 1,
                 snd (pos (TetrisGame.currentPiece s))) r (TetrisGame.board s) = Inr False
           \<longrightarrow> rotate' s =
                 Inr (s\<lparr>TetrisGame.currentPiece := (TetrisGame.currentPiece s)
                        \<lparr>pos := (fst (pos (TetrisGame.currentPiece s)) + 1,
                                 snd (pos (TetrisGame.currentPiece s)))\<rparr>\<lparr>shape := r\<rparr>\<rparr>)))
   \<and> (\<not> GameState.gameOver t \<and> wellFormed (GameState.board t)
      \<and> rotatePiece (GameState.currentPiece t) = Inr r'
    \<longrightarrow> handleKeyDown ArrowUp r1 r2 t =
          Inr (if canMove (GameState.board t) r' (fst (position t)) (snd (position t)) = Inr True
               then t\<lparr>GameState.currentPiece := r'\<rparr> else t))"
proof (intro conjI impI)
  assume a: "gameStarted s \<and> \<not> TetrisGame.gameOver s \<and> \<not> TetrisGame.isPaused s
      \<and> wellFormed (TetrisGame.board s) \<and> rotateMatrix (shape (TetrisGame.currentPiece s)) = Inr r"
  then show ord: "rotate' s =
          Inr (if checkCollision (pos (TetrisGame.currentPiece s)) r (TetrisGame.board s) = Inr False
               then s\<lparr>TetrisGame.currentPiece := (TetrisGame.currentPiece s)\<lparr>shape := r\<rparr>\<rparr>
               else if checkCollision (fst (pos (TetrisGame.currentPiece s)) - 1,
                         snd (pos (TetrisGame.currentPiece s))) r (TetrisGame.board s) = Inr False
               then s\<lparr>TetrisGame.currentPiece := (TetrisGame.currentPiece s)
                      \<lparr>pos := (fst (pos (TetrisGame.currentPiece s)) - 1,
                               snd (pos (TetrisGame.currentPiece s)))\<rparr>\<lparr>shape := r\<rparr>\<rparr>
               else if checkCollision (fst (pos (TetrisGame.currentPiece s)) + 1,
                         snd (pos (TetrisGame.currentPiece s))) r (TetrisGame.board s) = Inr False
               then s\<lparr>TetrisGame.currentPiece := (TetrisGame.currentPiece s)
                      \<lparr>pos := (fst (pos (TetrisGame.currentPiece s)) + 1,
                               snd (pos (TetrisGame.currentPiece s)))\<rparr>\<lparr>shape := r\<rparr>\<rparr>
               else s)"
    using rotate_order by blast
  assume "checkCollision (pos (TetrisGame.currentPiece s)) r (TetrisGame.board s) = Inr True
            \<and> checkCollision (fst (pos (TetrisGame.currentPiece s)) - 1,
                 snd (pos (TetrisGame.currentPiece s))) r (TetrisGame.board s) = Inr True
            \<and> checkCollision (fst (pos (TetrisGame.currentPiece s)) + 1,
                 snd (pos (TetrisGame.currentPiece s))) r (TetrisGame.board s) = Inr False"
  then show "rotate' s =
                 Inr (s\<lparr>TetrisGame.currentPiece := (TetrisGame.currentPiece s)
                        \<lparr>pos := (fst (pos (TetrisGame.currentPiece s)) + 1,
                                 snd (pos (TetrisGame.currentPiece s)))\<rparr>\<lparr>shape := r\<rparr>\<rparr>)"
    unfolding ord by simp
next
  assume "\<not> GameState.gameOver t \<and> wellFormed (GameState.board t)
      \<and> rotatePiece (GameState.currentPiece t) = Inr r'"
  then show "handleKeyDown ArrowUp r1 r2 t =
          Inr (if canMove (GameState.board t) r' (fst (position t)) (snd (position t)) = Inr True
               then t\<lparr>GameState.currentPiece := r'\<rparr> else t)"
    using handleKeyDown_ArrowUp by blast
qed


lemma exKickWall_run:
  "gameStarted exKickWall \<and> \<not> TetrisGame.gameOver exKickWall \<and> \<not> TetrisGame.isPaused exKickWall"
  "wellFormed (TetrisGame.board exKickWall)"
  "pos (TetrisGame.currentPiece exKickWall) = (- 1, 5)"
  "rotateMatrix (shape (TetrisGame.currentPiece exKickWall)) = Inr (fst (TETROMINOES TypeI))"
  "checkCollision (- 1, 5) (fst (TETROMINOES TypeI)) (TetrisGame.board exKickWall) = Inr True"
  "checkCollision (- 1 - 1, 5) (fst (TETROMINOES TypeI)) (TetrisGame.board exKickWall) = Inr True"
  "checkCollision (- 1 + 1, 5) (fst (TETROMINOES TypeI)) (TetrisGame.board exKickWall) = Inr False"
proof -
  have b: "TetrisGame.board exKickWall = createEmptyBoard"
    by (simp add: exKickWall_def exRunning_def startGame_def)
  show "gameStarted exKickWall \<and> \<not> TetrisGame.gameOver exKickWall \<and> \<not> TetrisGame.isPaused exKickWall"
    "pos (TetrisGame.currentPiece exKickWall) = (- 1, 5)"
    by (simp_all add: exKickWall_def exRunning_def startGame_def withPos_def)
  show "wellFormed (TetrisGame.board exKickWall)"
    unfolding b by (rule wellFormed_createEmptyBoard)
  show "rotateMatrix (shape (TetrisGame.currentPiece exKickWall)) = Inr (fst (TETROMINOES TypeI))"
    by (simp add: exKickWall_def withPos_def rotateMatrix_def cellAt_def jsIndex_def upt_rec)
  show "checkCollision (- 1, 5) (fst (TETROMINOES TypeI)) (TetrisGame.board exKickWall) = Inr True"
    "checkCollision (- 1 - 1, 5) (fst (TETROMINOES TypeI)) (TetrisGame.board exKickWall) = Inr True"
    "checkCollision (- 1 + 1, 5) (fst (TETROMINOES TypeI)) (TetrisGame.board exKickWall) = Inr False"
    unfolding b
    by (simp_all add: checkCollision_def createEmptyBoard_def BOARD_WIDTH_def BOARD_HEIGHT_def
        jsIndex_def cellAt_def)
qed

lemma exScriptKick_run:
  "\<not> GameState.gameOver exScriptKick"
  "wellFormed (GameState.board exScriptKick)"
  "position exScriptKick = (7, 5)"
  "rotatePiece (GameState.currentPiece exScriptKick) = Inr [[Num 1, Num 1, Num 1, Num 1]]"
  "canMove (GameState.board exScriptKick) [[Num 1, Num 1, Num 1, Num 1]] 7 5 = Inr False"
  "canMove (GameState.board exScriptKick) [[Num 1, Num 1, Num 1, Num 1]] (7 - 1) 5 = Inr True"
proof -
  have b: "GameState.board exScriptKick = createEmptyBoard_script"
    by (simp add: exScriptKick_def initialGameState_def)
  show "\<not> GameState.gameOver exScriptKick" "position exScriptKick = (7, 5)"
    by (simp_all add: exScriptKick_def initialGameState_def)
  show "wellFormed (GameState.board exScriptKick)"
    unfolding b by (rule wellFormed_createEmptyBoard_script)
  show "rotatePiece (GameState.currentPiece exScriptKick) = Inr [[Num 1, Num 1, Num 1, Num 1]]"
    by (simp add: exScriptKick_def rotatePiece_def writeCell_def jsIndex_def jsSet_def)
  show "canMove (GameState.board exScriptKick) [[Num 1, Num 1, Num 1, Num 1]] 7 5 = Inr False"
    "canMove (GameState.board exScriptKick) [[Num 1, Num 1, Num 1, Num 1]] (7 - 1) 5 = Inr True"
    unfolding b
    by (simp_all add: canMove_def createEmptyBoard_script_def BOARD_WIDTH_def BOARD_HEIGHT_def
        jsIndex_def cellAt_def)
qed

theorem rotation_kick_witness:
  "rotate' exKickWall =
     Inr (exKickWall\<lparr>TetrisGame.currentPiece := (TetrisGame.currentPiece exKickWall)
            \<lparr>pos := (0, 5)\<rparr>\<lparr>shape := fst (TETROMINOES TypeI)\<rparr>\<rparr>)
   \<and> handleKeyDown ArrowUp 0 0 exScriptKick = Inr exScriptKick"
proof -
  note inst = rotation_kick [where s = exKickWall and r = "fst (TETROMINOES TypeI)"
      and t = exScriptKick and r' = "[[Num 1, Num 1, Num 1, Num 1]]" and ?r1.0 = 0 and ?r2.0 = 0]
  have "rotate' exKickWall =
     Inr (exKickWall\<lparr>TetrisGame.currentPiece := (TetrisGame.currentPiece exKickWall)
            \<lparr>pos := (fst (pos (TetrisGame.currentPiece exKickWall)) + 1,
                     snd (pos (TetrisGame.currentPiece exKickWall)))\<rparr>
            \<lparr>shape := fst (TETROMINOES TypeI)\<rparr>\<rparr>)"
    using inst exKickWall_run by simp
  moreover have "handleKeyDown ArrowUp 0 0 exScriptKick = Inr exScriptKick"
    using inst exScriptKick_run by simp
  ultimately show ?thesis
    by (simp add: exKickWall_run(3))
qed

lemma exKickBoth_run:
  "gameStarted exKickBoth \<and> \<not> TetrisGame.gameOver exKickBoth \<and> \<not> TetrisGame.isPaused exKickBoth"
  "wellFormed (TetrisGame.board exKickBoth)"
  "pos (TetrisGame.currentPiece exKickBoth) = (3, 5)"
  "rotateMatrix (shape (TetrisGame.currentPiece exKickBoth))
     = Inr [[Num 0, Num 0, Num 1, Num 0], [Num 0, Num 0, Num 1, Num 0],
            [Num 0, Num 0, Num 1, Num 0], [Num 0, Num 0, Num 1, Num 0]]"
  "checkCollision (3, 5) [[Num 0, Num 0, Num 1, Num 0], [Num 0, Num 0, Num 1, Num 0],
            [Num 0, Num 0, Num 1, Num 0], [Num 0, Num 0, Num 1, Num 0]]
     (TetrisGame.board exKickBoth) = Inr True"
  "checkCollision (3 - 1, 5) [[Num 0, Num 0, Num 1, Num 0], [Num 0, Num 0, Num 1, Num 0],
            [Num 0, Num 0, Num 1, Num 0], [Num 0, Num 0, Num 1, Num 0]]
     (TetrisGame.board exKickBoth) = Inr False"
  "checkCollision (3 + 1, 5) [[Num 0, Num 0, Num 1, Num 0], [Num 0, Num 0, Num 1, Num 0],
            [Num 0, Num 0, Num 1, Num 0], [Num 0, Num 0, Num 1, Num 0]]
     (TetrisGame.board exKickBoth) = Inr False"
proof -
  have b: "TetrisGame.board exKickBoth
      = createEmptyBoard[8 := (replicate 10 Null)[5 := Str ''bg-red-500'']]"
    by (simp add: exKickBoth_def exRunning_def startGame_def)
  show "gameStarted exKickBoth \<and> \<not> TetrisGame.gameOver exKickBoth \<and> \<not> TetrisGame.isPaused exKickBoth"
    "pos (TetrisGame.currentPiece exKickBoth) = (3, 5)"
    by (simp_all add: exKickBoth_def exRunning_def startGame_def withPos_def)
  show "wellFormed (TetrisGame.board exKickBoth)"
    unfolding b
    by (simp add: wellFormed_def createEmptyBoard_def BOARD_WIDTH_def BOARD_HEIGHT_def
        list_all_length nth_list_update)
  show "rotateMatrix (shape (TetrisGame.currentPiece exKickBoth))
     = Inr [[Num 0, Num 0, Num 1, Num 0], [Num 0, Num 0, Num 1, Num 0],
            [Num 0, Num 0, Num 1, Num 0], [Num 0, Num 0, Num 1, Num 0]]"
    by (simp add: exKickBoth_def withPos_def randomTetromino_def rotateMatrix_def cellAt_def
        jsIndex_def upt_rec)
  show "checkCollision (3, 5) [[Num 0, Num 0, Num 1, Num 0], [Num 0, Num 0, Num 1, Num 0],
            [Num 0, Num 0, Num 1, Num 0], [Num 0, Num 0, Num 1, Num 0]]
     (TetrisGame.board exKickBoth) = Inr True"
    "checkCollision (3 - 1, 5) [[Num 0, Num 0, Num 1, Num 0], [Num 0, Num 0, Num 1, Num 0],
            [Num 0, Num 0, Num 1, Num 0], [Num 0, Num 0, Num 1, Num 0]]
     (TetrisGame.board exKickBoth) = Inr False"
    "checkCollision (3 + 1, 5) [[Num 0, Num 0, Num 1, Num 0], [Num 0, Num 0, Num 1, Num 0],
            [Num 0, Num 0, Num 1, Num 0], [Num 0, Num 0, Num 1, Num 0]]
     (TetrisGame.board exKickBoth) = Inr False"
    unfolding b
    by (simp_all add: checkCollision_def createEmptyBoard_def BOARD_WIDTH_def BOARD_HEIGHT_def
        jsIndex_def cellAt_def nth_list_update)
qed

text \<open>
  The claim as first stated sent every piece that collides at \<open>x\<close> and fits at \<open>x + 1\<close> to
  \<open>x + 1\<close>, and gave both variants the three candidates.  In \<open>exKickBoth\<close> the rotated piece
  collides at \<open>x = 3\<close>, fits at 4 and at 2, and ends at 2: the left is tried first.  In
  \<open>exScriptKick\<close> the rotated piece collides at \<open>x = 7\<close>, fits at 6, and does not move.
\<close>

theorem rotation_kick_counterexample:
  "map_sum id (\<lambda>s'. pos (TetrisGame.currentPiece s')) (rotate' exKickBoth) = Inr (3 - 1, 5)
   \<and> pos (TetrisGame.currentPiece exKickBoth) = (3, 5)
   \<and> checkCollision (3, 5) [[Num 0, Num 0, Num 1, Num 0], [Num 0, Num 0, Num 1, Num 0],
            [Num 0, Num 0, Num 1, Num 0], [Num 0, Num 0, Num 1, Num 0]]
        (TetrisGame.board exKickBoth) = Inr True
   \<and> checkCollision (3 + 1, 5) [[Num 0, Num 0, Num 1, Num 0], [Num 0, Num 0, Num 1, Num 0],
            [Num 0, Num 0, Num 1, Num 0], [Num 0, Num 0, Num 1, Num 0]]
        (TetrisGame.board exKickBoth) = Inr False
   \<and> handleKeyDown ArrowUp 0 0 exScriptKick = Inr exScriptKick
   \<and> position exScriptKick = (7, 5)
   \<and> canMove (GameState.board exScriptKick) [[Num 1, Num 1, Num 1, Num 1]] (7 - 1) 5 = Inr True"
proof -
  have "rotate' exKickBoth =
      Inr (exKickBoth\<lparr>TetrisGame.currentPiece := (TetrisGame.currentPiece exKickBoth)
             \<lparr>pos := (3 - 1, 5)\<rparr>
             \<lparr>shape := [[Num 0, Num 0, Num 1, Num 0], [Num 0, Num 0, Num 1, Num 0],
                        [Num 0, Num 0, Num 1, Num 0], [Num 0, Num 0, Num 1, Num 0]]\<rparr>\<rparr>)"
    using rotate_order [OF exKickBoth_run(1) [THEN conjunct1]
        exKickBoth_run(1) [THEN conjunct2, THEN conjunct1]
        exKickBoth_run(1) [THEN conjunct2, THEN conjunct2] exKickBoth_run(2,4)]
      exKickBoth_run(3,5,6)
    by simp
  moreover have "handleKeyDown ArrowUp 0 0 exScriptKick = Inr exScriptKick"
    using handleKeyDown_ArrowUp [OF exScriptKick_run(1,2,4), of 0 0] exScriptKick_run(3,5) by simp
  ultimately show ?thesis
    using exKickBoth_run(3,5,7) exScriptKick_run(3,6) by simp
qed

subsection \<open>Behaviour outside the amended claims\<close>

text \<open>A shape with no occupied cell never collides.\<close>

lemma checkCollision_no_cell:
  assumes "\<not> (\<exists>row<length sh. \<exists>col<length (sh ! row). sh ! row ! col \<noteq> Num 0)"
  shows "checkCollision p sh b = Inr False"
proof -
  have "scanFrom 0 sh (\<lambda>y row.
       scanFrom 0 row (\<lambda>x cell.
         if cell \<noteq> Num 0 then
           (let newX = fst p + x; newY = snd p + y in
            if newX < 0 \<or> newX \<ge> BOARD_WIDTH \<or> newY \<ge> BOARD_HEIGHT then Inr True
            else if newY \<ge> 0 then
              (case jsIndex b newY of
                 None \<Rightarrow> Inl TypeError
               | Some brow \<Rightarrow> Inr (cellAt brow newX \<noteq> Null))
            else Inr False)
         else Inr False)) = Inr (\<exists>k<length sh. (\<lambda>_ _. False) (0 + int k) (sh ! k))"
  proof (rule scanFrom_pure)
    fix k assume k: "k < length sh"
    have "scanFrom 0 (sh ! k) (\<lambda>x cell.
         if cell \<noteq> Num 0 then
           (let newX = fst p + x; newY = snd p + (0 + int k) in
            if newX < 0 \<or> newX \<ge> BOARD_WIDTH \<or> newY \<ge> BOARD_HEIGHT then Inr True
            else if newY \<ge> 0 then
              (case jsIndex b newY of
                 None \<Rightarrow> Inl TypeError
               | Some brow \<Rightarrow> Inr (cellAt brow newX \<noteq> Null))
            else Inr False)
         else Inr False) = Inr (\<exists>j<length (sh ! k). (\<lambda>_ _. False) (0 + int j) (sh ! k ! j))"
      by (rule scanFrom_pure) (use assms k in auto)
    then show "scanFrom 0 (sh ! k) (\<lambda>x cell.
         if cell \<noteq> Num 0 then
           (let newX = fst p + x; newY = snd p + (0 + int k) in
            if newX < 0 \<or> newX \<ge> BOARD_WIDTH \<or> newY \<ge> BOARD_HEIGHT then Inr True
            else if newY \<ge> 0 then
              (case jsIndex b newY of
                 None \<Rightarrow> Inl TypeError
               | Some brow \<Rightarrow> Inr (cellAt brow newX \<noteq> Null))
            else Inr False)
         else Inr False) = Inr False"
      by simp
  qed
  then show ?thesis by (simp add: checkCollision_def)
qed

lemma ghostY_loop_Some_occupied:
  assumes "ghostY_loop x y sh b = Some r"
  shows "\<exists>row<length sh. \<exists>col<length (sh ! row). sh ! row ! col \<noteq> Num 0"
proof (rule ghostY_loop.raw_induct
    [where P = "\<lambda>_ _ sh _ _. \<exists>row<length sh. \<exists>col<length (sh ! row). sh ! row ! col \<noteq> Num 0",
      OF _ assms], goal_cases)
  case (1 f x y sh b r)
  show ?case
  proof (rule ccontr)
    assume no: "\<not> (\<exists>row<length sh. \<exists>col<length (sh ! row). sh ! row ! col \<noteq> Num 0)"
    with 1(2) have "f x (y + 1) sh b = Some r"
      by (simp add: checkCollision_no_cell)
    with 1(1) no show False by blast
  qed
qed

lemma hardDrop_currentY_Some_occupied:
  assumes "hardDrop_currentY x y sh b = Some r"
  shows "\<exists>row<length sh. \<exists>col<length (sh ! row). sh ! row ! col \<noteq> Num 0"
proof (rule hardDrop_currentY.raw_induct
    [where P = "\<lambda>_ _ sh _ _. \<exists>row<length sh. \<exists>col<length (sh ! row). sh ! row ! col \<noteq> Num 0",
      OF _ assms], goal_cases)
  case (1 f x y sh b r)
  show ?case
  proof (rule ccontr)
    assume no: "\<not> (\<exists>row<length sh. \<exists>col<length (sh ! row). sh ! row ! col \<noteq> Num 0)"
    with 1(2) have "f x (y + 1) sh b = Some r"
      by (simp add: checkCollision_no_cell)
    with 1(1) no show False by blast
  qed
qed

lemma hardDrop_finalY_Some_occupied:
  assumes "hardDrop_finalY x y sh b = Some r"
  shows "\<exists>row<length sh. \<exists>col<length (sh ! row). sh ! row ! col \<noteq> Num 0"
proof (rule hardDrop_finalY.raw_induct
    [where P = "\<lambda>_ _ sh _ _. \<exists>row<length sh. \<exists>col<length (sh ! row). sh ! row ! col \<noteq> Num 0",
      OF _ assms], goal_cases)
  case (1 f x y sh b r)
  show ?case
  proof (rule ccontr)
    assume no: "\<not> (\<exists>row<length sh. \<exists>col<length (sh ! row). sh ! row ! col \<noteq> Num 0)"
    with 1(2) have "f x (y + 1) sh b = Some r"
      by (simp add: checkCollision_no_cell)
    with 1(1) no show False by blast
  qed
qed

text \<open>On a shape with no occupied cell the three landing loops do not end.\<close>

lemma landing_loops_diverge:
  assumes "\<not> (\<exists>row<length sh. \<exists>col<length (sh ! row). sh ! row ! col \<noteq> Num 0)"
  shows "ghostY_loop x y sh b = None" "hardDrop_currentY x y sh b = None"
    "hardDrop_finalY x y sh b = None"
  using assms ghostY_loop_Some_occupied [of x y sh b]
    hardDrop_currentY_Some_occupied [of x y sh b] hardDrop_finalY_Some_occupied [of x y sh b]
  by (cases "ghostY_loop x y sh b"; cases "hardDrop_currentY x y sh b";
      cases "hardDrop_finalY x y sh b"; simp)+

text \<open>At session start the hook variant puts the I piece at column 4, where the width
  formula of the later spawns gives 3.\<close>

lemma startGame_I_column:
  "pos (TetrisGame.currentPiece (startGame TypeI k2 s)) = (4, 0)"
  "(10::int) div 2 - int (length (fst (TETROMINOES TypeI) ! 0)) div 2 = 3"
  by (simp_all add: startGame_def withPos_def BOARD_WIDTH_def)

text \<open>In the script variant the chain of conditionals gives 800 to a lock that clears no
  row.\<close>

lemma moveDown_no_row_adds_800:
  "map_sum id (\<lambda>t'. (GameState.lines t', GameState.score t'))
     (moveDown 0 0 ((initialGameState 1 0)\<lparr>position := (3, 19)\<rparr>)) = Inr (0, Number 800)"
proof -
  let ?t = "(initialGameState 1 0)\<lparr>position := (3, 19)\<rparr>"
  let ?placed = "replicate 19 (replicate 10 (Num 0))
      @ [[Num 0, Num 0, Num 0, Num 1, Num 1, Num 1, Num 1, Num 0, Num 0, Num 0]]"
  have 1: "canMove (GameState.board ?t) (GameState.currentPiece ?t) (fst (position ?t))
      (snd (position ?t) + 1) = Inr False"
    by (simp add: initialGameState_def getRandomPiece_def PIECES_def canMove_def
        BOARD_WIDTH_def BOARD_HEIGHT_def)
  have 2: "placePiece (GameState.board ?t) (GameState.currentPiece ?t) (fst (position ?t))
      (snd (position ?t)) (currentColor ?t) = Inr ?placed"
    by (simp add: initialGameState_def getRandomPiece_def PIECES_def placePiece_def
        createEmptyBoard_script_def BOARD_WIDTH_def BOARD_HEIGHT_def writeCell_def jsIndex_def
        jsSet_def Let_def numeral_eq_Suc)
  have 3: "clearLines ?placed = Inr (?placed, 0)"
    by (simp add: clearLines_eq list_all_iff)
  have 4: "canMove ?placed (GameState.nextPiece ?t) 3 0 = Inr True"
    by (simp add: initialGameState_def getRandomPiece_def PIECES_def canMove_def
        BOARD_WIDTH_def BOARD_HEIGHT_def jsIndex_def cellAt_def nth_append)
  have g: "\<not> GameState.gameOver ?t" "\<not> GameState.isPaused ?t"
    by (simp_all add: initialGameState_def)
  show ?thesis
    using moveDown_lock [OF g 1 2 3 4, of 0 0]
    by (simp add: initialGameState_def toNumber_safe safeInteger_def)
qed

text \<open>Beyond the safe integers a sum is rounded to the nearest double, ties to even, and
  overflows to infinity: the score \<open>2\<^sup>5\<^sup>3 - 1\<close> plus 100 is \<open>2\<^sup>5\<^sup>3 + 100\<close>, not \<open>2\<^sup>5\<^sup>3 + 99\<close>.\<close>

lemma jsPlus_rounds:
  "jsPlus (Number (2 ^ 53 - 1)) (Number 100) = Number (2 ^ 53 + 100)"
  "jsPlus (Number (2 ^ 53)) (Number 1) = Number (2 ^ 53)"
  "jsPlus (Number (2 ^ 1023)) (Number (2 ^ 1023)) = PosInfinity"
  by code_simp+

end
